theory Spec2Isabelle
  imports Main
begin

section \<open>Python strings\<close>

text \<open>
  A Python \<open>str\<close> is a sequence of Unicode code points, so a string is a list of
  natural numbers. Literals of the source are written \<open>lit ''...''\<close>; code points
  outside ASCII and the characters that cannot be written inside a literal are given
  by their number.
\<close>

type_synonym pystr = "nat list"

abbreviation (input) lit :: "string \<Rightarrow> pystr" where
  "lit s \<equiv> map of_char s"

text \<open>
  \<open>str.isspace\<close> on one code point: the characters that \<open>str.split()\<close> and
  \<open>str.strip()\<close> without arguments treat as whitespace.
\<close>

definition is_space :: "nat \<Rightarrow> bool" where
  "is_space c = (9 \<le> c \<and> c \<le> 13 \<or> 28 \<le> c \<and> c \<le> 32 \<or> c = 133 \<or> c = 160
     \<or> c = 5760 \<or> 8192 \<le> c \<and> c \<le> 8202 \<or> c = 8232 \<or> c = 8233
     \<or> c = 8239 \<or> c = 8287 \<or> c = 12288)"

text \<open>\<open>s.replace(a, b)\<close> for single characters \<open>a\<close> and \<open>b\<close>.\<close>

definition replace_char :: "nat \<Rightarrow> nat \<Rightarrow> pystr \<Rightarrow> pystr" where
  "replace_char a b s = map (\<lambda>c. if c = a then b else c) s"

text \<open>\<open>s.lstrip()\<close>, \<open>s.rstrip()\<close>, \<open>s.strip()\<close> and \<open>s.rstrip(chars)\<close>.\<close>

definition lstrip :: "pystr \<Rightarrow> pystr" where
  "lstrip s = dropWhile is_space s"

definition rstrip :: "pystr \<Rightarrow> pystr" where
  "rstrip s = rev (dropWhile is_space (rev s))"

definition strip :: "pystr \<Rightarrow> pystr" where
  "strip s = rstrip (lstrip s)"

definition rstrip_chars :: "pystr \<Rightarrow> pystr \<Rightarrow> pystr" where
  "rstrip_chars chars s = rev (dropWhile (\<lambda>c. c \<in> set chars) (rev s))"

text \<open>
  \<open>s.split()\<close>: the maximal runs of non-whitespace characters, in order. The first
  argument of \<open>split_ws\<close> is the word read so far.
\<close>

fun split_ws :: "pystr \<Rightarrow> pystr \<Rightarrow> pystr list" where
  "split_ws w [] = (if w = [] then [] else [w])"
| "split_ws w (c # cs) =
     (if is_space c then (if w = [] then split_ws [] cs else w # split_ws [] cs)
      else split_ws (w @ [c]) cs)"

definition py_split :: "pystr \<Rightarrow> pystr list" where
  "py_split s = split_ws [] s"

text \<open>\<open>sep.join(xs)\<close>.\<close>

fun join :: "pystr \<Rightarrow> pystr list \<Rightarrow> pystr" where
  "join sep [] = []"
| "join sep [x] = x"
| "join sep (x # y # ys) = x @ sep @ join sep (y # ys)"

text \<open>\<open>s.split('\n')\<close>: split at every line feed, keeping empty pieces.\<close>

fun split_nl :: "pystr \<Rightarrow> pystr list" where
  "split_nl [] = [[]]"
| "split_nl (c # cs) =
     (if c = 10 then [] # split_nl cs
      else (case split_nl cs of [] \<Rightarrow> [[c]] | l # ls \<Rightarrow> (c # l) # ls))"

definition startswith :: "pystr \<Rightarrow> pystr \<Rightarrow> bool" where
  "startswith s p = (take (length p) s = p)"

section \<open>Filename Sanitizer\<close>

text \<open>The characters \<open>< > : " / \ | ? *\<close> of \<open>invalid_chars\<close>.\<close>

definition invalid_chars :: pystr where
  "invalid_chars = [60, 62, 58, 34, 47, 92, 124, 63, 42]"

text \<open>
  \<open>sanitize_filename\<close> on a string, step by step as the source: the guard for the
  empty string, the replacement of each invalid character by \<open>_\<close> (95), whitespace
  collapsed and trimmed, line feeds and tabs to spaces, spaces to \<open>-\<close> (45), trailing
  \<open>_\<close> and \<open>-\<close> removed, and the cut to \<open>max_length = 100\<close>.
\<close>

definition sanitize_filename :: "pystr \<Rightarrow> pystr" where
  "sanitize_filename filename =
     (if filename = [] then lit ''unnamed''
      else
        let f1 = foldl (\<lambda>f ch. replace_char ch 95 f) filename invalid_chars;
            f2 = join (lit '' '') (py_split f1);
            f3 = strip f2;
            f4 = replace_char 10 32 f3;
            f5 = replace_char 9 32 f4;
            f6 = replace_char 32 45 f5;
            f7 = rstrip_chars (lit ''_-'') f6
        in if length f7 > 100 then rstrip_chars (lit ''_-'') (strip (take 100 f7)) else f7)"

text \<open>
  The property of a result that the specification states for the sanitizer: non-empty,
  free of the invalid characters, no \<open>_\<close>, \<open>-\<close> or whitespace at either end, at most 100
  characters.
\<close>

definition spec_sanitized :: "pystr \<Rightarrow> bool" where
  "spec_sanitized r =
     (r \<noteq> [] \<and> list_all (\<lambda>c. c \<notin> set invalid_chars) r
      \<and> hd r \<noteq> 95 \<and> hd r \<noteq> 45 \<and> \<not> is_space (hd r)
      \<and> last r \<noteq> 95 \<and> last r \<noteq> 45 \<and> \<not> is_space (last r)
      \<and> length r \<le> 100)"

section \<open>Values, exceptions and effects\<close>

text \<open>
  The records of the remote API are decoded JSON: \<open>None\<close>, booleans, integers, strings,
  lists and dictionaries (a dictionary is its list of items, looked up with \<open>map_of\<close>).
  JSON numbers with a fraction are outside the model.
\<close>

datatype json =
    JNull
  | JBool bool
  | JNum int
  | JStr pystr
  | JArr "json list"
  | JObj "(pystr \<times> json) list"

text \<open>
  The exceptions of the program. \<open>SystemExit\<close> is what \<open>sys.exit\<close> raises; it derives from
  \<open>BaseException\<close> and not from \<open>Exception\<close>. \<open>AttributeError\<close> and \<open>TypeError\<close> carry the
  interpreter's message, \<open>KeyError\<close> the missing key.
\<close>

datatype exc =
    SystemExit nat
  | KeyError pystr
  | AttributeError pystr
  | TypeError pystr

text \<open>\<open>isinstance(e, Exception)\<close>: what a clause \<open>except Exception\<close> catches.\<close>

fun is_Exception :: "exc \<Rightarrow> bool" where
  "is_Exception (SystemExit n) = False"
| "is_Exception (KeyError k) = True"
| "is_Exception (AttributeError m) = True"
| "is_Exception (TypeError m) = True"

text \<open>
  \<open>str(e)\<close>: for a \<open>KeyError\<close> the \<open>repr\<close> of the key (the keys of the program are plain
  identifiers, so the key between single quotes, code point 39).
\<close>

fun exc_str :: "exc \<Rightarrow> pystr" where
  "exc_str (SystemExit n) = []"
| "exc_str (KeyError k) = [39] @ k @ [39]"
| "exc_str (AttributeError m) = m"
| "exc_str (TypeError m) = m"

text \<open>One request of \<open>make_request\<close>: the method is always GET, with a URL and \<open>params\<close>.\<close>

datatype request = GET pystr "(pystr \<times> json) list"

text \<open>
  What \<open>requests.request\<close>, \<open>raise_for_status\<close> and \<open>response.json()\<close> can do, by the
  \<open>except\<close> clause of \<open>make_request\<close> that it reaches: a decoded body, or one of the five
  handled failures (\<open>HTTPError\<close> with the status code and the text of the exception).
\<close>

datatype http_outcome =
    Response json
  | ConnectionError
  | Timeout
  | HTTPError nat pystr
  | RequestException pystr
  | JSONDecodeError

text \<open>
  The effects of a run, in the order they happen: a line printed, \<open>os.makedirs\<close>, a file
  written, a request sent.
\<close>

datatype event =
    Print pystr
  | MakeDirs pystr
  | WriteFile pystr pystr
  | Request request

text \<open>
  The module-level globals and the collaborators outside the source: the remote API
  (its answer may depend on everything that happened before), the file system's
  \<open>os.path.exists\<close>, \<open>urllib.parse.urljoin\<close>, \<open>html2text\<close>'s \<open>handle\<close> on a string, and
  \<open>str()\<close> of a list or a dictionary.
\<close>

record env =
  instance_url :: pystr
  output_folder :: pystr
  selected_kbs :: "pystr list"
  urljoin :: "pystr \<Rightarrow> pystr \<Rightarrow> pystr"
  http :: "event list \<Rightarrow> request \<Rightarrow> http_outcome"
  path_exists :: "event list \<Rightarrow> pystr \<Rightarrow> bool"
  html2text_handle :: "pystr \<Rightarrow> pystr"
  py_repr :: "json \<Rightarrow> pystr"

definition kb_bases_endpoint :: "env \<Rightarrow> pystr" where
  "kb_bases_endpoint e = urljoin e (instance_url e) (lit ''/api/now/table/kb_knowledge_base'')"

definition kb_categories_endpoint :: "env \<Rightarrow> pystr" where
  "kb_categories_endpoint e = urljoin e (instance_url e) (lit ''/api/now/table/kb_category'')"

definition articles_endpoint :: "env \<Rightarrow> pystr" where
  "articles_endpoint e = urljoin e (instance_url e) (lit ''/api/now/table/kb_knowledge'')"

definition users_endpoint :: "env \<Rightarrow> pystr" where
  "users_endpoint e = urljoin e (instance_url e) (lit ''/api/now/table/sys_user'')"

text \<open>
  A computation takes the events so far and returns the events after it, with an
  exception (\<open>Inl\<close>) or a value (\<open>Inr\<close>).
\<close>

type_synonym 'a io = "event list \<Rightarrow> event list \<times> (exc + 'a)"

definition io_return :: "'a \<Rightarrow> 'a io" where
  "io_return x log = (log, Inr x)"

definition io_bind :: "'a io \<Rightarrow> ('a \<Rightarrow> 'b io) \<Rightarrow> 'b io" where
  "io_bind m f log = (case m log of (log', Inl ex) \<Rightarrow> (log', Inl ex) | (log', Inr x) \<Rightarrow> f x log')"

definition io_lift :: "exc + 'a \<Rightarrow> 'a io" where
  "io_lift r log = (log, r)"

definition io_print :: "pystr \<Rightarrow> unit io" where
  "io_print s log = (log @ [Print s], Inr ())"

section \<open>Python operations on values\<close>

text \<open>Truth value of a value (\<open>if v\<close>, \<open>not v\<close>, \<open>a or b\<close>).\<close>

fun truthy :: "json \<Rightarrow> bool" where
  "truthy JNull = False"
| "truthy (JBool b) = b"
| "truthy (JNum n) = (n \<noteq> 0)"
| "truthy (JStr s) = (s \<noteq> [])"
| "truthy (JArr xs) = (xs \<noteq> [])"
| "truthy (JObj kv) = (kv \<noteq> [])"

fun type_name :: "json \<Rightarrow> pystr" where
  "type_name JNull = lit ''NoneType''"
| "type_name (JBool b) = lit ''bool''"
| "type_name (JNum n) = lit ''int''"
| "type_name (JStr s) = lit ''str''"
| "type_name (JArr xs) = lit ''list''"
| "type_name (JObj kv) = lit ''dict''"

text \<open>The \<open>AttributeError\<close> of a method that the value's type does not have.\<close>

definition attribute_error :: "json \<Rightarrow> pystr \<Rightarrow> exc" where
  "attribute_error v a =
     AttributeError ([39] @ type_name v @ [39] @ lit '' object has no attribute '' @ [39] @ a @ [39])"

text \<open>\<open>v.get(k, default)\<close>: only a dictionary has \<open>get\<close>.\<close>

definition dict_get :: "(pystr \<times> json) list \<Rightarrow> pystr \<Rightarrow> json \<Rightarrow> json" where
  "dict_get kv k d = (case map_of kv k of None \<Rightarrow> d | Some v \<Rightarrow> v)"

fun py_get :: "json \<Rightarrow> pystr \<Rightarrow> json \<Rightarrow> exc + json" where
  "py_get (JObj kv) k d = Inr (dict_get kv k d)"
| "py_get v k d = Inl (attribute_error v (lit ''get''))"

text \<open>\<open>v[k]\<close> for a string key \<open>k\<close> (message texts of CPython 3.11).\<close>

fun py_index :: "json \<Rightarrow> pystr \<Rightarrow> exc + json" where
  "py_index (JObj kv) k = (case map_of kv k of None \<Rightarrow> Inl (KeyError k) | Some v \<Rightarrow> Inr v)"
| "py_index (JStr s) k = Inl (TypeError (lit ''string indices must be integers, not '' @ [39] @ lit ''str'' @ [39]))"
| "py_index (JArr xs) k = Inl (TypeError (lit ''list indices must be integers or slices, not str''))"
| "py_index v k = Inl (TypeError ([39] @ type_name v @ [39] @ lit '' object is not subscriptable''))"

text \<open>
  \<open>for x in v\<close>: the elements of a list, the keys of a dictionary, the characters of a
  string.
\<close>

fun py_iter :: "json \<Rightarrow> exc + json list" where
  "py_iter (JArr xs) = Inr xs"
| "py_iter (JObj kv) = Inr (map (\<lambda>p. JStr (fst p)) kv)"
| "py_iter (JStr s) = Inr (map (\<lambda>c. JStr [c]) s)"
| "py_iter v = Inl (TypeError ([39] @ type_name v @ [39] @ lit '' object is not iterable''))"

text \<open>\<open>v.strip()\<close>: only a string has \<open>strip\<close>.\<close>

fun py_strip :: "json \<Rightarrow> exc + pystr" where
  "py_strip (JStr s) = Inr (strip s)"
| "py_strip v = Inl (attribute_error v (lit ''strip''))"

text \<open>\<open>str(n)\<close> for an integer: decimal digits, \<open>-\<close> (45) before a negative number.\<close>

fun str_nat :: "nat \<Rightarrow> pystr" where
  "str_nat n = (if n < 10 then [48 + n] else str_nat (n div 10) @ [48 + n mod 10])"

definition str_int :: "int \<Rightarrow> pystr" where
  "str_int i = (if i < 0 then 45 # str_nat (nat (- i)) else str_nat (nat i))"

text \<open>\<open>str(v)\<close>, also what an f-string puts for \<open>{v}\<close>.\<close>

fun py_str :: "env \<Rightarrow> json \<Rightarrow> pystr" where
  "py_str e JNull = lit ''None''"
| "py_str e (JBool b) = (if b then lit ''True'' else lit ''False'')"
| "py_str e (JNum n) = str_int n"
| "py_str e (JStr s) = s"
| "py_str e v = py_repr e v"

text \<open>
  \<open>sanitize_filename\<close> on a value that need not be a string: a false value gives
  \<open>"unnamed"\<close> at the guard, a true value that is no string fails at \<open>filename.replace\<close>.
\<close>

definition sanitize_filename_json :: "json \<Rightarrow> exc + pystr" where
  "sanitize_filename_json v =
     (if \<not> truthy v then Inr (lit ''unnamed'')
      else case v of JStr s \<Rightarrow> Inr (sanitize_filename s)
                   | _ \<Rightarrow> Inl (attribute_error v (lit ''replace'')))"

text \<open>\<open>os.path.join(a, b)\<close> (POSIX).\<close>

definition path_join :: "pystr \<Rightarrow> pystr \<Rightarrow> pystr" where
  "path_join a b =
     (if startswith b (lit ''/'') then b
      else if a = [] \<or> last a = 47 then a @ b
      else a @ lit ''/'' @ b)"

section \<open>Remote calls\<close>

text \<open>
  \<open>make_request\<close>: the request is sent; a decoded body is returned, each of the handled
  failures prints its message and calls \<open>sys.exit(1)\<close>.
\<close>

definition make_request :: "env \<Rightarrow> request \<Rightarrow> json io" where
  "make_request e req log =
     (let log1 = log @ [Request req] in
      case http e log req of
        Response j \<Rightarrow> (log1, Inr j)
      | ConnectionError \<Rightarrow>
          (log1 @ [Print (lit ''Error: Could not connect to '' @ instance_url e
                     @ lit ''. Please check your internet connection and the instance URL.'')],
           Inl (SystemExit 1))
      | Timeout \<Rightarrow>
          (log1 @ [Print (lit ''Error: Request to '' @ (case req of GET u ps \<Rightarrow> u)
                     @ lit '' timed out. Please try again.'')],
           Inl (SystemExit 1))
      | HTTPError status msg \<Rightarrow>
          (log1 @ [Print (lit ''Error: HTTP request failed: '' @ msg)]
             @ (if status = 401
                  then [Print (lit ''Authentication failed. Please check your username and password.'')]
                else if status = 403
                  then [Print (lit ''Access forbidden. Please check your permissions.'')]
                else []),
           Inl (SystemExit 1))
      | RequestException msg \<Rightarrow>
          (log1 @ [Print (lit ''Error: An unexpected error occurred: '' @ msg)], Inl (SystemExit 1))
      | JSONDecodeError \<Rightarrow>
          (log1 @ [Print (lit ''Error: Received invalid JSON response from ''
                     @ (case req of GET u ps \<Rightarrow> u))],
           Inl (SystemExit 1)))"

text \<open>The dictionary that \<open>get_user_details\<close> returns.\<close>

record author =
  name :: pystr
  sys_id :: json

text \<open>
  \<open>get_user_details\<close>: the guard for a false id, then the \<open>try\<close> block; its handler
  \<open>except Exception\<close> turns an exception into the fallback only if the exception is an
  \<open>Exception\<close>.
\<close>

definition fetch_user :: "env \<Rightarrow> json \<Rightarrow> author io" where
  "fetch_user e user_sys_id =
     io_bind (make_request e (GET (users_endpoint e @ lit ''/'' @ py_str e user_sys_id) []))
       (\<lambda>response. io_bind (io_lift (py_get response (lit ''result'') (JObj [])))
       (\<lambda>user. io_bind (io_lift (py_get user (lit ''first_name'') (JStr [])))
       (\<lambda>first. io_bind (io_lift (py_get user (lit ''last_name'') (JStr [])))
       (\<lambda>last_name.
          let full = strip (py_str e first @ lit '' '' @ py_str e last_name)
          in io_return \<lparr>name = (if full = [] then lit ''Unknown'' else full),
                         sys_id = user_sys_id\<rparr>))))"

definition get_user_details :: "env \<Rightarrow> json \<Rightarrow> author io" where
  "get_user_details e user_sys_id log =
     (if \<not> truthy user_sys_id then (log, Inr \<lparr>name = lit ''Unknown'', sys_id = JStr []\<rparr>)
      else case fetch_user e user_sys_id log of
             (log', Inl ex) \<Rightarrow>
               (if is_Exception ex
                  then (log', Inr \<lparr>name = lit ''Unknown'', sys_id = user_sys_id\<rparr>)
                else (log', Inl ex))
           | (log', Inr a) \<Rightarrow> (log', Inr a))"

section \<open>Content Transformer\<close>

text \<open>
  \<open>convert_html_to_markdown\<close>: \<open>h.handle(html_content).strip()\<close>; \<open>handle\<close> starts with
  \<open>data.replace\<close>, which only a string has.
\<close>

definition convert_html_to_markdown :: "env \<Rightarrow> json \<Rightarrow> exc + pystr" where
  "convert_html_to_markdown e html_content =
     (case html_content of
        JStr s \<Rightarrow> Inr (strip (html2text_handle e s))
      | _ \<Rightarrow> Inl (attribute_error html_content (lit ''replace'')))"

text \<open>
  The \<open>while\<close> loop that pops leading lines. \<open>metadata['title']\<close> is read only when the
  first line is not blank (\<open>or\<close> evaluates left to right) and raises \<open>KeyError\<close> when the
  key is missing.
\<close>

fun drop_title_lines :: "(pystr \<times> pystr) list \<Rightarrow> pystr list \<Rightarrow> exc + pystr list" where
  "drop_title_lines metadata [] = Inr []"
| "drop_title_lines metadata (l # ls) =
     (if strip l = [] then drop_title_lines metadata ls
      else case map_of metadata (lit ''title'') of
             None \<Rightarrow> Inl (KeyError (lit ''title''))
           | Some t \<Rightarrow>
               if startswith (strip l) (lit ''# '' @ t) \<or> strip l = t
                 then drop_title_lines metadata ls
               else Inr (l # ls))"

text \<open>
  The \<open>for\<close> loop that builds \<open>cleaned_content\<close>; the first argument is \<open>prev_blank\<close>.
\<close>

fun collapse_blank :: "bool \<Rightarrow> pystr list \<Rightarrow> pystr list" where
  "collapse_blank prev_blank [] = []"
| "collapse_blank prev_blank (line # ls) =
     (if \<not> (strip line = [] \<and> prev_blank) then [line] else [])
       @ collapse_blank (strip line = []) ls"

section \<open>Metadata Composer\<close>

text \<open>The dictionary \<open>metadata\<close> as first built, in the order of its keys.\<close>

definition metadata_source :: "(pystr \<times> json) list \<Rightarrow> pystr \<Rightarrow> author \<Rightarrow> (pystr \<times> json) list" where
  "metadata_source article_data title author_details =
     [(lit ''title'', JStr title),
      (lit ''author'', JStr (name author_details)),
      (lit ''author_sys_id'', sys_id author_details),
      (lit ''created_date'', dict_get article_data (lit ''sys_created_on'') (JStr [])),
      (lit ''updated_date'', dict_get article_data (lit ''sys_updated_on'') (JStr [])),
      (lit ''views'', dict_get article_data (lit ''view_count'') (JNum 0)),
      (lit ''rating'', dict_get article_data (lit ''rating'') (JStr [])),
      (lit ''knowledge_base'', dict_get article_data (lit ''kb_knowledge_base.title'') (JStr [])),
      (lit ''category'', dict_get article_data (lit ''kb_category.label'') (JStr [])),
      (lit ''sys_id'', dict_get article_data (lit ''sys_id'') (JStr []))]"

text \<open>\<open>{k: str(v).strip() for k, v in metadata.items() if v}\<close>.\<close>

definition clean_metadata :: "env \<Rightarrow> (pystr \<times> json) list \<Rightarrow> (pystr \<times> pystr) list" where
  "clean_metadata e metadata =
     map (\<lambda>p. (fst p, strip (py_str e (snd p)))) (filter (\<lambda>p. truthy (snd p)) metadata)"

text \<open>The lines of the frontmatter: \<open>key: "value"\<close> between two lines \<open>---\<close>.\<close>

definition frontmatter_lines :: "(pystr \<times> pystr) list \<Rightarrow> pystr list" where
  "frontmatter_lines metadata =
     [lit ''---''] @ map (\<lambda>p. fst p @ lit '': '' @ [34] @ snd p @ [34]) metadata @ [lit ''---'']"

text \<open>
  The part of \<open>format_article_markdown\<close> after the author lookup: the cleaned metadata,
  the frontmatter, the two loops over the lines of the content, and the document.
\<close>

definition compose_document ::
    "env \<Rightarrow> (pystr \<times> json) list \<Rightarrow> pystr \<Rightarrow> author \<Rightarrow> pystr \<Rightarrow> exc + pystr" where
  "compose_document e article_data title author_details markdown_content =
     (let metadata = clean_metadata e (metadata_source article_data title author_details);
          frontmatter = frontmatter_lines metadata
      in case drop_title_lines metadata (split_nl markdown_content) of
           Inl ex \<Rightarrow> Inl ex
         | Inr content_lines \<Rightarrow>
             (let cleaned_content = collapse_blank False content_lines
              in case map_of metadata (lit ''title'') of
                   None \<Rightarrow> Inl (KeyError (lit ''title''))
                 | Some t \<Rightarrow>
                     Inr (join [10] [join [10] frontmatter, [], lit ''# '' @ t, [],
                                     strip (join [10] cleaned_content)])))"

definition format_article_markdown :: "env \<Rightarrow> json \<Rightarrow> pystr \<Rightarrow> pystr \<Rightarrow> pystr io" where
  "format_article_markdown e article_data markdown_content file_path =
     (case article_data of
        JObj kv \<Rightarrow>
          (let sd = dict_get kv (lit ''short_description'') JNull;
               t0 = (if truthy sd then sd else dict_get kv (lit ''title'') (JStr []))
           in io_bind (io_lift (py_strip t0))
             (\<lambda>t1. let title = join (lit '' '') (py_split t1)
               in io_bind (io_lift (py_get (dict_get kv (lit ''author'') (JObj [])) (lit ''value'') (JStr [])))
             (\<lambda>author_sys_id. io_bind (get_user_details e author_sys_id)
             (\<lambda>author_details.
                io_lift (compose_document e kv title author_details markdown_content)))))
      | _ \<Rightarrow> io_lift (Inl (attribute_error article_data (lit ''get''))))"

section \<open>Export Driver\<close>

definition create_folder :: "env \<Rightarrow> pystr \<Rightarrow> unit io" where
  "create_folder e path log =
     (if path_exists e log path then (log, Inr ()) else (log @ [MakeDirs path], Inr ()))"

definition write_file :: "pystr \<Rightarrow> pystr \<Rightarrow> unit io" where
  "write_file path content log = (log @ [WriteFile path content], Inr ())"

definition print_article_content :: "env \<Rightarrow> pystr \<Rightarrow> pystr \<Rightarrow> json \<Rightarrow> pystr \<Rightarrow> unit io" where
  "print_article_content e original_title sanitized_title article_data file_path =
     io_bind (io_lift (py_get article_data (lit ''text'') (JStr [])))
       (\<lambda>text. io_bind (io_lift (convert_html_to_markdown e text))
       (\<lambda>markdown_content. io_bind (format_article_markdown e article_data markdown_content file_path)
       (\<lambda>full_markdown. write_file file_path full_markdown)))"

text \<open>
  The body of the inner \<open>try\<close> of \<open>main\<close>, for one article of a knowledge base:
  \<open>continue\<close> when the record has no true \<open>sys_id\<close>, else the article is fetched, its
  folder chosen by its category, and the document written.
\<close>

definition export_article ::
    "env \<Rightarrow> pystr \<Rightarrow> pystr \<Rightarrow> (pystr \<times> json) list \<Rightarrow> json \<Rightarrow> unit io" where
  "export_article e kb_title kb_folder categories article =
     io_bind (io_lift (py_get article (lit ''sys_id'') JNull))
       (\<lambda>article_id.
          if \<not> truthy article_id then io_return ()
          else
            io_bind (make_request e
                       (GET (urljoin e (instance_url e)
                               (lit ''/api/now/table/kb_knowledge/'' @ py_str e article_id)) []))
            (\<lambda>article_response. io_bind (io_lift (py_index article_response (lit ''result'')))
            (\<lambda>article_data. io_bind (io_lift (py_get article_data (lit ''short_description'') JNull))
            (\<lambda>sd. io_bind (io_lift
                       (if truthy sd then Inr sd
                        else py_get article_data (lit ''title'')
                               (JStr (lit ''Unnamed Article '' @ py_str e article_id))))
            (\<lambda>t0. io_bind (io_lift (py_strip t0))
            (\<lambda>original_title.
               let article_title = sanitize_filename original_title
               in io_bind (io_lift (py_get article_data (lit ''kb_category'') (JStr [])))
            (\<lambda>cat.
               let category_id = py_str e cat
               in io_bind
                    (case (if category_id \<noteq> [] then map_of categories category_id else None) of
                       Some category \<Rightarrow>
                         io_bind (io_lift (py_get category (lit ''label'') (JStr (lit ''Unnamed_Category''))))
                         (\<lambda>label. io_bind (io_lift (sanitize_filename_json label))
                         (\<lambda>category_title.
                            let category_folder = path_join kb_folder category_title
                            in io_bind (create_folder e category_folder)
                         (\<lambda>u. io_return (category_folder, kb_title @ lit ''/'' @ category_title))))
                     | None \<Rightarrow> io_return (kb_folder, kb_title))
            (\<lambda>place.
               let file_path = path_join (fst place) (article_title @ lit ''.md'')
               in io_bind (io_print ([8594] @ lit '' '' @ snd place @ lit ''/'' @ article_title @ lit ''.mdx''))
            (\<lambda>u. print_article_content e original_title article_title article_data file_path)))))))))"

text \<open>The inner \<open>try\<close> with its handler \<open>except KeyError\<close>: a warning, then \<open>continue\<close>.\<close>

definition process_article ::
    "env \<Rightarrow> pystr \<Rightarrow> pystr \<Rightarrow> (pystr \<times> json) list \<Rightarrow> json \<Rightarrow> unit io" where
  "process_article e kb_title kb_folder categories article log =
     (case export_article e kb_title kb_folder categories article log of
        (log', Inl (KeyError k)) \<Rightarrow>
          (log' @ [Print (lit ''  Warning: Skipping article due to missing data: '' @ exc_str (KeyError k))],
           Inr ())
      | (log', r) \<Rightarrow> (log', r))"

text \<open>\<open>for article in articles\<close>.\<close>

fun process_articles ::
    "env \<Rightarrow> pystr \<Rightarrow> pystr \<Rightarrow> (pystr \<times> json) list \<Rightarrow> json list \<Rightarrow> unit io" where
  "process_articles e kb_title kb_folder categories [] log = (log, Inr ())"
| "process_articles e kb_title kb_folder categories (article # articles) log =
     (case process_article e kb_title kb_folder categories article log of
        (log', Inl ex) \<Rightarrow> (log', Inl ex)
      | (log', Inr u) \<Rightarrow> process_articles e kb_title kb_folder categories articles log')"

text \<open>The body of the outer \<open>try\<close>, for one knowledge base.\<close>

definition export_knowledge_base :: "env \<Rightarrow> (pystr \<times> json) list \<Rightarrow> json \<Rightarrow> unit io" where
  "export_knowledge_base e categories kb =
     io_bind (io_lift (py_get kb (lit ''title'') (JStr (lit ''Unnamed Knowledge Base''))))
       (\<lambda>t. io_bind (io_lift (sanitize_filename_json t))
       (\<lambda>kb_title.
          let kb_folder = path_join (output_folder e) kb_title
          in io_bind (create_folder e kb_folder)
       (\<lambda>u. io_bind (io_print ([10] @ lit ''Processing knowledge base: '' @ kb_title))
       (\<lambda>u. io_bind (io_print (replicate (length kb_title + 24) 45))
       (\<lambda>u. io_bind (io_lift (py_index kb (lit ''sys_id'')))
       (\<lambda>kb_sys_id. io_bind (make_request e (GET (articles_endpoint e) [(lit ''knowledge_base'', kb_sys_id)]))
       (\<lambda>articles_response. io_bind (io_lift (py_get articles_response (lit ''result'') (JArr [])))
       (\<lambda>articles.
          if \<not> truthy articles
            then io_print (lit ''No articles found in knowledge base: '' @ kb_title)
          else io_bind (io_lift (py_iter articles))
                 (process_articles e kb_title kb_folder categories)))))))))"

text \<open>The outer \<open>try\<close> with its handler \<open>except KeyError\<close>.\<close>

definition process_knowledge_base :: "env \<Rightarrow> (pystr \<times> json) list \<Rightarrow> json \<Rightarrow> unit io" where
  "process_knowledge_base e categories kb log =
     (case export_knowledge_base e categories kb log of
        (log', Inl (KeyError k)) \<Rightarrow>
          (log' @ [Print (lit ''Warning: Error processing knowledge base: '' @ exc_str (KeyError k))],
           Inr ())
      | (log', r) \<Rightarrow> (log', r))"

text \<open>\<open>for kb in knowledge_bases\<close>.\<close>

fun process_knowledge_bases :: "env \<Rightarrow> (pystr \<times> json) list \<Rightarrow> json list \<Rightarrow> unit io" where
  "process_knowledge_bases e categories [] log = (log, Inr ())"
| "process_knowledge_bases e categories (kb # kbs) log =
     (case process_knowledge_base e categories kb log of
        (log', Inl ex) \<Rightarrow> (log', Inl ex)
      | (log', Inr u) \<Rightarrow> process_knowledge_bases e categories kbs log')"

text \<open>
  \<open>[kb for kb in knowledge_bases if kb.get('title', '').strip() in selected_kbs]\<close>.
\<close>

fun filter_kbs :: "pystr list \<Rightarrow> json list \<Rightarrow> exc + json list" where
  "filter_kbs selected [] = Inr []"
| "filter_kbs selected (kb # kbs) =
     (case py_get kb (lit ''title'') (JStr []) of
        Inl ex \<Rightarrow> Inl ex
      | Inr t \<Rightarrow>
          (case py_strip t of
             Inl ex \<Rightarrow> Inl ex
           | Inr s \<Rightarrow>
               (case filter_kbs selected kbs of
                  Inl ex \<Rightarrow> Inl ex
                | Inr rest \<Rightarrow> Inr (if s \<in> set selected then kb # rest else rest))))"

text \<open>
  \<open>{str(cat['sys_id']): cat for cat in ...}\<close>: the items are put in front, so that
  \<open>map_of\<close> finds the latest record of a key.
\<close>

fun build_categories ::
    "env \<Rightarrow> (pystr \<times> json) list \<Rightarrow> json list \<Rightarrow> exc + (pystr \<times> json) list" where
  "build_categories e acc [] = Inr acc"
| "build_categories e acc (cat # cats) =
     (case py_index cat (lit ''sys_id'') of
        Inl ex \<Rightarrow> Inl ex
      | Inr v \<Rightarrow> build_categories e ((py_str e v, cat) # acc) cats)"

text \<open>
  \<open>main\<close> from the fetch of the categories on, with the knowledge bases that are left
  after the filter.
\<close>

definition export_all :: "env \<Rightarrow> json \<Rightarrow> unit io" where
  "export_all e knowledge_bases =
     io_bind (make_request e (GET (kb_categories_endpoint e) []))
       (\<lambda>cat_response. io_bind (io_lift (py_get cat_response (lit ''result'') (JArr [])))
       (\<lambda>cats. io_bind (io_lift (py_iter cats))
       (\<lambda>cat_list. io_bind (io_lift (build_categories e [] cat_list))
       (\<lambda>categories. io_bind (io_lift (py_iter knowledge_bases))
       (\<lambda>kb_list. io_bind (process_knowledge_bases e categories kb_list)
       (\<lambda>u. io_bind (io_print ([10, 10003] @ lit '' Knowledge base export completed successfully!''))
       (\<lambda>u. io_print (lit ''  Articles saved to: '' @ output_folder e))))))))"

text \<open>The body of the \<open>try\<close> of \<open>main\<close>; a \<open>return\<close> ends it with a value.\<close>

definition main_body :: "env \<Rightarrow> unit io" where
  "main_body e =
     io_bind (create_folder e (output_folder e))
       (\<lambda>u. io_bind (io_print (lit ''Starting knowledge base export...''))
       (\<lambda>u. io_bind (io_print ([10] @ lit ''Fetching knowledge bases and categories...''))
       (\<lambda>u. io_bind (make_request e (GET (kb_bases_endpoint e) []))
       (\<lambda>kb_response. io_bind (io_lift (py_get kb_response (lit ''result'') (JArr [])))
       (\<lambda>knowledge_bases.
          if \<not> truthy knowledge_bases
            then io_print (lit ''Warning: No knowledge bases found'')
          else if selected_kbs e \<noteq> []
            then io_bind (io_print (lit ''Filtering knowledge bases: ''
                                      @ join (lit '', '') (selected_kbs e)))
                 (\<lambda>u. io_bind (io_lift (py_iter knowledge_bases))
                 (\<lambda>kbs. io_bind (io_lift (filter_kbs (selected_kbs e) kbs))
                 (\<lambda>filtered.
                    if filtered = []
                      then io_print (lit ''Warning: No matching knowledge bases found'')
                    else export_all e (JArr filtered))))
          else export_all e knowledge_bases)))))"

text \<open>
  \<open>main\<close>: the handler \<open>except Exception\<close> of the whole run prints the diagnostic and calls
  \<open>sys.exit(1)\<close>; a \<open>SystemExit\<close> raised inside passes through it.
\<close>

definition main :: "env \<Rightarrow> unit io" where
  "main e log =
     (case main_body e log of
        (log', Inl ex) \<Rightarrow>
          (if is_Exception ex
             then (log' @ [Print ([10, 10007] @ lit '' Error: An unexpected error occurred: '' @ exc_str ex)],
                   Inl (SystemExit 1))
           else (log', Inl ex))
      | (log', Inr u) \<Rightarrow> (log', Inr u))"

text \<open>
  The exit status of the process: 0 when \<open>main\<close> returns, the argument of \<open>sys.exit\<close>
  when a \<open>SystemExit\<close> leaves it.
\<close>

fun exit_status :: "exc + unit \<Rightarrow> nat" where
  "exit_status (Inr u) = 0"
| "exit_status (Inl (SystemExit n)) = n"
| "exit_status (Inl ex) = 1"

section \<open>Properties stated by the specification\<close>

text \<open>
  A list of lines has no two consecutive blank lines; a line is blank when nothing is
  left of it after \<open>strip\<close>, as in the source (\<open>not line.strip()\<close>).
\<close>

fun no_double_blank :: "pystr list \<Rightarrow> bool" where
  "no_double_blank [] = True"
| "no_double_blank [a] = True"
| "no_double_blank (a # b # ls) = (\<not> (strip a = [] \<and> strip b = []) \<and> no_double_blank (b # ls))"


text \<open>The order of the fields of the frontmatter that the specification gives.\<close>

definition field_order :: "pystr list" where
  "field_order =
     [lit ''title'', lit ''author'', lit ''author_sys_id'', lit ''created_date'', lit ''updated_date'',
      lit ''views'', lit ''rating'', lit ''knowledge_base'', lit ''category'', lit ''sys_id'']"

section \<open>A concrete environment\<close>

text \<open>
  An environment to run the program on concrete inputs: nothing exists on disk but what
  the run creates, \<open>urljoin\<close> puts the absolute path after the instance URL, the HTML
  conversion leaves the text as it is. The remote API is the parameter.
\<close>

definition demo_env :: "(event list \<Rightarrow> request \<Rightarrow> http_outcome) \<Rightarrow> env" where
  "demo_env remote =
     \<lparr>instance_url = lit ''https://dev.example.com'',
      output_folder = lit ''/srv/articles'',
      selected_kbs = [],
      urljoin = (\<lambda>base url. base @ url),
      http = remote,
      path_exists = (\<lambda>log path. MakeDirs path \<in> set log),
      html2text_handle = (\<lambda>html. html),
      py_repr = (\<lambda>v. lit ''...'')\<rparr>"

text \<open>A remote that cannot be reached.\<close>

definition offline :: "event list \<Rightarrow> request \<Rightarrow> http_outcome" where
  "offline log req = ConnectionError"

text \<open>
  A remote with one knowledge base listing one article \<open>a1\<close>, written by the user \<open>u1\<close>.
  The parameters are the list of knowledge bases, the list of categories and the outcome
  of every other request, which for this article is the lookup of its author.
\<close>

definition demo_remote :: "json \<Rightarrow> json \<Rightarrow> http_outcome \<Rightarrow> event list \<Rightarrow> request \<Rightarrow> http_outcome" where
  "demo_remote kbs cats user log req =
     (case req of GET url params \<Rightarrow>
        if url = lit ''https://dev.example.com/api/now/table/kb_knowledge_base''
          then Response (JObj [(lit ''result'', kbs)])
        else if url = lit ''https://dev.example.com/api/now/table/kb_category''
          then Response (JObj [(lit ''result'', cats)])
        else if url = lit ''https://dev.example.com/api/now/table/kb_knowledge''
          then Response (JObj [(lit ''result'', JArr [JObj [(lit ''sys_id'', JStr (lit ''a1''))]])])
        else if url = lit ''https://dev.example.com/api/now/table/kb_knowledge/a1''
          then Response (JObj [(lit ''result'',
                 JObj [(lit ''sys_id'', JStr (lit ''a1'')),
                       (lit ''short_description'', JStr (lit ''Leave Policy'')),
                       (lit ''author'', JObj [(lit ''value'', JStr (lit ''u1''))]),
                       (lit ''text'', JStr (lit ''Text''))])])
        else user)"

text \<open>The knowledge base \<open>HR\<close> of the concrete remote.\<close>

definition demo_kbs :: json where
  "demo_kbs = JArr [JObj [(lit ''title'', JStr (lit ''HR'')), (lit ''sys_id'', JStr (lit ''k1''))]]"

section \<open>Properties of the string operations\<close>

lemmas str_defs = replace_char_def lstrip_def rstrip_def strip_def rstrip_chars_def
  py_split_def startswith_def is_space_def invalid_chars_def

lemma set_replace_char: "set (replace_char a b s) \<subseteq> (set s - {a}) \<union> {b}"
  by (auto simp: replace_char_def)

lemma replace_char_absent: "a \<notin> set s \<Longrightarrow> replace_char a b s = s"
  by (induction s) (auto simp: replace_char_def)

lemma split_ws_nonspace:
  "\<forall>c \<in> set w. \<not> is_space c \<Longrightarrow> u \<in> set (split_ws w s) \<Longrightarrow> u \<noteq> [] \<and> (\<forall>c \<in> set u. \<not> is_space c)"
proof (induction s arbitrary: w)
  case Nil
  then show ?case by (auto split: if_splits)
next
  case (Cons a s)
  show ?case
  proof (cases "is_space a")
    case True
    then have "u = w \<and> w \<noteq> [] \<or> u \<in> set (split_ws [] s)"
      using Cons.prems(2) by (auto split: if_splits)
    then show ?thesis
    proof
      assume "u = w \<and> w \<noteq> []"
      then show ?thesis using Cons.prems(1) by simp
    next
      assume "u \<in> set (split_ws [] s)"
      then show ?thesis using Cons.IH[of "[]"] by simp
    qed
  next
    case False
    then have "u \<in> set (split_ws (w @ [a]) s)" using Cons.prems(2) by simp
    moreover have "\<forall>c \<in> set (w @ [a]). \<not> is_space c" using False Cons.prems(1) by simp
    ultimately show ?thesis using Cons.IH[of "w @ [a]"] by blast
  qed
qed

lemma split_ws_subset:
  "u \<in> set (split_ws w s) \<Longrightarrow> set u \<subseteq> set w \<union> set s"
proof (induction s arbitrary: w)
  case Nil
  then show ?case by (auto split: if_splits)
next
  case (Cons a s)
  show ?case
  proof (cases "is_space a")
    case True
    then have "u = w \<or> u \<in> set (split_ws [] s)"
      using Cons.prems by (auto split: if_splits)
    then show ?thesis using Cons.IH[of "[]"] by auto
  next
    case False
    then have "u \<in> set (split_ws (w @ [a]) s)" using Cons.prems by simp
    then show ?thesis using Cons.IH[of "w @ [a]"] by auto
  qed
qed

lemma split_ws_no_space:
  "\<forall>c \<in> set s. \<not> is_space c \<Longrightarrow> split_ws w s = (if w @ s = [] then [] else [w @ s])"
  by (induction s arbitrary: w) auto

lemma set_join: "set (join sep xs) \<subseteq> set sep \<union> \<Union> (set ` set xs)"
  by (induction sep xs rule: join.induct) auto

lemma replace_invalid_map:
  "foldl (\<lambda>f ch. replace_char ch 95 f) s invalid_chars =
     map (\<lambda>c. if c \<in> set invalid_chars then 95 else c) s"
  by (induction s) (simp_all add: invalid_chars_def replace_char_def)

lemma set_lstrip: "set (lstrip s) \<subseteq> set s"
  by (auto simp: lstrip_def dest: set_dropWhileD)

lemma set_rstrip: "set (rstrip s) \<subseteq> set s"
  by (auto simp: rstrip_def dest: set_dropWhileD)

lemma set_strip: "set (strip s) \<subseteq> set s"
  using set_lstrip[of s] set_rstrip[of "lstrip s"] unfolding strip_def by blast

lemma strip_no_space: "\<forall>c \<in> set s. \<not> is_space c \<Longrightarrow> strip s = s"
proof (cases s rule: rev_cases)
  case Nil
  then show ?thesis by (simp add: strip_def lstrip_def rstrip_def)
next
  case (snoc ys y)
  assume a: "\<forall>c \<in> set s. \<not> is_space c"
  then have "lstrip s = s" by (cases s) (simp_all add: lstrip_def)
  moreover have "rstrip s = s" using snoc a by (simp add: rstrip_def)
  ultimately show ?thesis by (simp add: strip_def)
qed

lemma set_rstrip_chars: "set (rstrip_chars cs s) \<subseteq> set s"
  by (auto simp: rstrip_chars_def dest: set_dropWhileD)

lemma length_rstrip_chars: "length (rstrip_chars cs s) \<le> length s"
  using length_dropWhile_le[of "\<lambda>c. c \<in> set cs" "rev s"] by (simp add: rstrip_chars_def)

lemma length_strip: "length (strip s) \<le> length s"
proof -
  have "length (rstrip (lstrip s)) \<le> length (lstrip s)"
    using length_dropWhile_le[of is_space "rev (lstrip s)"] by (simp add: rstrip_def)
  also have "\<dots> \<le> length s" by (simp add: lstrip_def length_dropWhile_le)
  finally show ?thesis by (simp add: strip_def)
qed

lemma last_rstrip_chars:
  "rstrip_chars cs s = [] \<or> last (rstrip_chars cs s) \<notin> set cs"
proof (cases "dropWhile (\<lambda>c. c \<in> set cs) (rev s)")
  case Nil
  then show ?thesis by (simp add: rstrip_chars_def)
next
  case (Cons a as)
  then have "a \<notin> set cs" using hd_dropWhile[of "\<lambda>c. c \<in> set cs" "rev s"] by simp
  with Cons show ?thesis by (simp add: rstrip_chars_def)
qed

lemma rstrip_chars_id: "s = [] \<or> last s \<notin> set cs \<Longrightarrow> rstrip_chars cs s = s"
  by (cases s rule: rev_cases) (auto simp: rstrip_chars_def)


lemma sanitize_chars:
  assumes "x \<noteq> []"
  defines "f6 \<equiv> replace_char 32 45 (replace_char 9 32 (replace_char 10 32 (strip (join (lit '' '')
              (py_split (foldl (\<lambda>f ch. replace_char ch 95 f) x invalid_chars))))))"
  shows "\<forall>c \<in> set f6. c \<notin> set invalid_chars \<and> \<not> is_space c"
proof
  fix c assume c: "c \<in> set f6"
  let ?f1 = "foldl (\<lambda>f ch. replace_char ch 95 f) x invalid_chars"
  let ?f2 = "join (lit '' '') (py_split ?f1)"
  have f1: "\<And>d. d \<in> set ?f1 \<Longrightarrow> d \<notin> set invalid_chars"
    unfolding replace_invalid_map by (auto simp: invalid_chars_def)
  have f2: "\<And>d. d \<in> set ?f2 \<Longrightarrow> d = 32 \<or> (d \<in> set ?f1 \<and> \<not> is_space d)"
  proof -
    fix d assume "d \<in> set ?f2"
    then have "d \<in> set (lit '' '') \<or> (\<exists>u \<in> set (py_split ?f1). d \<in> set u)"
      using set_join[of "lit '' ''" "py_split ?f1"] by auto
    then show "d = 32 \<or> (d \<in> set ?f1 \<and> \<not> is_space d)"
    proof
      assume "d \<in> set (lit '' '')" then show ?thesis by simp
    next
      assume "\<exists>u \<in> set (py_split ?f1). d \<in> set u"
      then obtain u where u: "u \<in> set (split_ws [] ?f1)" "d \<in> set u"
        by (auto simp: py_split_def)
      from split_ws_nonspace[of "[]" u ?f1] u have "\<not> is_space d" by simp
      moreover from split_ws_subset[OF u(1)] u(2) have "d \<in> set ?f1" by auto
      ultimately show ?thesis by simp
    qed
  qed
  from c have "c = 45 \<or> (c \<noteq> 32 \<and> c \<in> set (replace_char 9 32 (replace_char 10 32 (strip ?f2))))"
    unfolding f6_def replace_char_def by (auto split: if_splits)
  then have "c = 45 \<or> (c \<noteq> 32 \<and> c \<in> set (strip ?f2))"
    unfolding replace_char_def by (auto split: if_splits)
  then have "c = 45 \<or> (c \<noteq> 32 \<and> c \<in> set ?f2)"
    using set_strip[of ?f2] by blast
  then have "c = 45 \<or> (c \<in> set ?f1 \<and> \<not> is_space c)"
    using f2 by blast
  then show "c \<notin> set invalid_chars \<and> \<not> is_space c"
  proof
    assume "c = 45" then show ?thesis by (simp add: invalid_chars_def is_space_def)
  next
    assume "c \<in> set ?f1 \<and> \<not> is_space c" then show ?thesis using f1 by blast
  qed
qed

lemma is_space_replace_invalid:
  "is_space (if c \<in> set invalid_chars then 95 else c) = is_space c"
  by (simp add: invalid_chars_def is_space_def)

lemma lstrip_replace_invalid:
  "lstrip (map (\<lambda>c. if c \<in> set invalid_chars then 95 else c) s)
     = map (\<lambda>c. if c \<in> set invalid_chars then 95 else c) (lstrip s)"
proof -
  have "is_space \<circ> (\<lambda>c. if c \<in> set invalid_chars then 95 else c) = is_space"
    using is_space_replace_invalid by (intro ext) (simp only: comp_def)
  then show ?thesis by (simp add: lstrip_def dropWhile_map)
qed

lemma split_ws_lstrip: "split_ws [] s = split_ws [] (lstrip s)"
  by (induction s) (simp_all add: lstrip_def)

lemma split_ws_first: "w \<noteq> [] \<Longrightarrow> \<exists>u us. split_ws w s = (w @ u) # us"
proof (induction s arbitrary: w)
  case Nil
  then show ?case by simp
next
  case (Cons c cs)
  show ?case
  proof (cases "is_space c")
    case True
    then have "split_ws w (c # cs) = (w @ []) # split_ws [] cs" using Cons.prems by simp
    then show ?thesis by blast
  next
    case False
    obtain u us where "split_ws (w @ [c]) cs = ((w @ [c]) @ u) # us"
      using Cons.IH[of "w @ [c]"] by auto
    then have "split_ws w (c # cs) = (w @ (c # u)) # us" using False by simp
    then show ?thesis by blast
  qed
qed

lemma join_words_head:
  assumes "lstrip s = c # cs"
  shows "\<exists>r. join (lit '' '') (py_split s) = c # r"
proof -
  have "dropWhile is_space s \<noteq> []" using assms by (simp add: lstrip_def)
  from hd_dropWhile[OF this] have nsp: "\<not> is_space c"
    using assms by (simp add: lstrip_def)
  have "split_ws [] s = split_ws [c] cs"
    using split_ws_lstrip[of s] assms nsp by simp
  then obtain u us where "py_split s = (c # u) # us"
    using split_ws_first[of "[c]" cs] by (auto simp: py_split_def)
  then show ?thesis by (cases us) auto
qed

lemma join_words_empty:
  assumes "lstrip s = []"
  shows "join (lit '' '') (py_split s) = []"
  using split_ws_lstrip[of s] assms by (simp add: py_split_def)

lemma rstrip_chars_take: "\<exists>n. rstrip_chars cs s = take n s"
proof -
  have "rev (dropWhile (\<lambda>c. c \<in> set cs) (rev s))
          = take (length s - length (takeWhile (\<lambda>c. c \<in> set cs) (rev s))) s"
    by (simp add: dropWhile_eq_drop rev_drop)
  then show ?thesis unfolding rstrip_chars_def by blast
qed

lemma rstrip_chars_head: "c \<notin> set cs \<Longrightarrow> rstrip_chars cs (c # s) = c # rstrip_chars cs s"
  by (auto simp: rstrip_chars_def dropWhile_append dropWhile_eq_Nil_conv)

lemma strip_head: "\<not> is_space c \<Longrightarrow> strip (c # s) = c # rstrip s"
  by (auto simp: strip_def lstrip_def rstrip_def dropWhile_append dropWhile_eq_Nil_conv)

section \<open>Properties of the Filename Sanitizer\<close>

lemma sanitize_filename_props:
  "(\<forall>c \<in> set (sanitize_filename x). c \<notin> set invalid_chars \<and> \<not> is_space c)
   \<and> (sanitize_filename x = [] \<or> last (sanitize_filename x) \<notin> {95, 45})
   \<and> length (sanitize_filename x) \<le> 100"
proof (cases "x = []")
  case True
  then show ?thesis by (simp add: sanitize_filename_def invalid_chars_def is_space_def)
next
  case False
  define f6 where "f6 = replace_char 32 45 (replace_char 9 32 (replace_char 10 32 (strip (join (lit '' '')
              (py_split (foldl (\<lambda>f ch. replace_char ch 95 f) x invalid_chars))))))"
  define f7 where "f7 = rstrip_chars (lit ''_-'') f6"
  define r where "r = (if length f7 > 100 then rstrip_chars (lit ''_-'') (strip (take 100 f7)) else f7)"
  have res: "sanitize_filename x = r"
    using False by (simp add: sanitize_filename_def Let_def f6_def f7_def r_def)
  have c6: "\<forall>c \<in> set f6. c \<notin> set invalid_chars \<and> \<not> is_space c"
    unfolding f6_def by (rule sanitize_chars[OF False])
  have sub7: "set f7 \<subseteq> set f6" unfolding f7_def by (rule set_rstrip_chars)
  have "set (rstrip_chars (lit ''_-'') (strip (take 100 f7))) \<subseteq> set f7"
    using set_rstrip_chars[of "lit ''_-''" "strip (take 100 f7)"] set_strip[of "take 100 f7"]
      set_take_subset[of 100 f7] by blast
  then have subr: "set r \<subseteq> set f6" using sub7 by (auto simp: r_def)
  have lastr: "r = [] \<or> last r \<notin> set (lit ''_-'')"
    unfolding r_def f7_def using last_rstrip_chars[of "lit ''_-''"] by auto
  have "length (rstrip_chars (lit ''_-'') (strip (take 100 f7))) \<le> length (take 100 f7)"
    using length_rstrip_chars[of "lit ''_-''" "strip (take 100 f7)"] length_strip[of "take 100 f7"]
    by linarith
  then have lenr: "length r \<le> 100" by (auto simp: r_def)
  from lastr have "r = [] \<or> last r \<notin> {95, 45}" by simp
  with c6 subr lenr show ?thesis unfolding res by blast
qed


lemma sanitize_filename_head:
  "(x \<noteq> [] \<and> sanitize_filename x \<noteq> [] \<longrightarrow>
      lstrip x \<noteq> []
      \<and> hd (sanitize_filename x)
          = (if hd (lstrip x) \<in> set invalid_chars then 95 else hd (lstrip x)))
   \<and> (lstrip x \<noteq> [] \<and> hd (lstrip x) \<notin> set invalid_chars \<union> {95, 45} \<longrightarrow> sanitize_filename x \<noteq> [])"
proof (cases "x = []")
  case True
  then show ?thesis by (simp add: lstrip_def)
next
  case False
  define g where "g = (\<lambda>c::nat. if c \<in> set invalid_chars then 95 else c)"
  define f1 where "f1 = foldl (\<lambda>f ch. replace_char ch 95 f) x invalid_chars"
  define f2 where "f2 = join (lit '' '') (py_split f1)"
  define f6 where "f6 = replace_char 32 45 (replace_char 9 32 (replace_char 10 32 (strip f2)))"
  define f7 where "f7 = rstrip_chars (lit ''_-'') f6"
  define r where "r = (if length f7 > 100 then rstrip_chars (lit ''_-'') (strip (take 100 f7)) else f7)"
  have res: "sanitize_filename x = r"
    using False by (simp add: sanitize_filename_def Let_def f1_def f2_def f6_def f7_def r_def)
  have c6: "\<forall>c \<in> set f6. c \<notin> set invalid_chars \<and> \<not> is_space c"
    unfolding f6_def f2_def f1_def by (rule sanitize_chars[OF False])
  have l1: "lstrip f1 = map g (lstrip x)"
    unfolding f1_def replace_invalid_map g_def by (rule lstrip_replace_invalid)
  obtain n where n: "f7 = take n f6" unfolding f7_def using rstrip_chars_take by blast
  have "\<forall>c \<in> set (take 100 f7). \<not> is_space c"
    using c6 n by (auto dest!: in_set_takeD)
  then have st: "strip (take 100 f7) = take 100 f7" by (rule strip_no_space)
  have "\<exists>m. r = take m f6"
  proof (cases "length f7 > 100")
    case True
    obtain k where "rstrip_chars (lit ''_-'') (take 100 f7) = take k (take 100 f7)"
      using rstrip_chars_take by blast
    then have "r = take (min k (min 100 n)) f6" using True st n by (simp add: r_def min.assoc)
    then show ?thesis by blast
  next
    case False
    then have "r = f7" by (simp add: r_def)
    then have "r = take n f6" using n by simp
    then show ?thesis by blast
  qed
  then obtain m where m: "r = take m f6" by blast
  show ?thesis
  proof (cases "lstrip x")
    case Nil
    then have "f2 = []" unfolding f2_def using l1 by (intro join_words_empty) simp
    then have "f6 = []" by (simp add: f6_def str_defs)
    then have "r = []" using m by simp
    then show ?thesis using Nil res by simp
  next
    case (Cons c cs)
    then have "lstrip f1 = g c # map g cs" using l1 by simp
    then obtain t where t: "f2 = g c # t" unfolding f2_def using join_words_head by blast
    have "dropWhile is_space x \<noteq> []" using Cons by (simp add: lstrip_def)
    from hd_dropWhile[OF this] have nsp: "\<not> is_space c" using Cons by (simp add: lstrip_def)
    have gn: "\<not> is_space (g c)" unfolding g_def is_space_replace_invalid by (rule nsp)
    then obtain t' where "strip f2 = g c # t'" using t strip_head by blast
    moreover have "g c \<noteq> 10" "g c \<noteq> 9" "g c \<noteq> 32" using gn by (auto simp: is_space_def)
    ultimately obtain t'' where h6: "f6 = g c # t''" by (simp add: f6_def replace_char_def)
    have a: "r \<noteq> [] \<longrightarrow> hd r = g c" using m h6 by (cases m) auto
    have b: "g c \<notin> {95, 45} \<longrightarrow> r \<noteq> []"
    proof
      assume gc: "g c \<notin> {95, 45}"
      then have gc': "g c \<notin> set (lit ''_-'')" by simp
      obtain u where u: "f7 = g c # u"
        unfolding f7_def h6 using rstrip_chars_head[OF gc'] by blast
      show "r \<noteq> []"
      proof (cases "length f7 > 100")
        case True
        have "take 100 f7 = g c # take 99 u" using u by simp
        then obtain u' where "rstrip_chars (lit ''_-'') (take 100 f7) = g c # u'"
          using rstrip_chars_head[OF gc'] by metis
        then show ?thesis using True st by (simp add: r_def)
      next
        case False
        then show ?thesis using u by (simp add: r_def)
      qed
    qed
    have "hd (lstrip x) \<notin> set invalid_chars \<union> {95, 45} \<longrightarrow> g c \<notin> {95, 45}"
      using Cons by (auto simp: g_def)
    then show ?thesis using a b Cons res by (auto simp: g_def)
  qed
qed

lemma sanitize_filename_empty: "sanitize_filename [] = lit ''unnamed''"
  by (simp add: sanitize_filename_def)

text \<open>
  Claim C2, as the code has it: for every input string, the result of
  \<open>sanitize_filename\<close> contains none of the characters \<open>< > : " / \ | ? *\<close> and no
  whitespace at all (so none at either end), does not end in \<open>_\<close> or \<open>-\<close>, and has at
  most 100 characters. The empty string gives \<open>unnamed\<close>. For a non-empty input, a result
  that is not empty begins with the first non-whitespace character of the input, an
  invalid character replaced by \<open>_\<close>: a leading \<open>_\<close> or \<open>-\<close> of such a result is not
  removed. The result is not empty whenever the first non-whitespace character of the
  input is neither invalid nor \<open>_\<close> nor \<open>-\<close>.
\<close>

theorem sanitize_filename_safe:
  "(\<forall>c \<in> set (sanitize_filename x). c \<notin> set invalid_chars \<and> \<not> is_space c)
   \<and> (sanitize_filename x = [] \<or> last (sanitize_filename x) \<notin> {95, 45})
   \<and> length (sanitize_filename x) \<le> 100
   \<and> sanitize_filename [] = lit ''unnamed''
   \<and> (x \<noteq> [] \<and> sanitize_filename x \<noteq> [] \<longrightarrow>
        lstrip x \<noteq> []
        \<and> hd (sanitize_filename x)
            = (if hd (lstrip x) \<in> set invalid_chars then 95 else hd (lstrip x)))
   \<and> (lstrip x \<noteq> [] \<and> hd (lstrip x) \<notin> set invalid_chars \<union> {95, 45}
        \<longrightarrow> sanitize_filename x \<noteq> [])"
  using sanitize_filename_props[of x] sanitize_filename_head[of x] sanitize_filename_empty
  by blast

theorem sanitize_filename_safe_witness:
  "sanitize_filename (lit ''A/B:C *'') = lit ''A_B_C''
   \<and> list_all (\<lambda>c. c \<notin> set invalid_chars \<and> \<not> is_space c) (sanitize_filename (lit ''A/B:C *''))
   \<and> last (sanitize_filename (lit ''A/B:C *'')) \<noteq> 95
   \<and> last (sanitize_filename (lit ''A/B:C *'')) \<noteq> 45
   \<and> length (sanitize_filename (lit ''A/B:C *'')) \<le> 100
   \<and> hd (sanitize_filename (lit ''A/B:C *'')) = hd (lstrip (lit ''A/B:C *''))"
proof -
  have e: "sanitize_filename (lit ''A/B:C *'') = lit ''A_B_C''"
    by (simp add: sanitize_filename_def str_defs)
  have "list_all (\<lambda>c. c \<notin> set invalid_chars \<and> \<not> is_space c) (sanitize_filename (lit ''A/B:C *''))"
    using sanitize_filename_safe[of "lit ''A/B:C *''"] unfolding list_all_iff by blast
  moreover have "last (sanitize_filename (lit ''A/B:C *'')) \<noteq> 95
     \<and> last (sanitize_filename (lit ''A/B:C *'')) \<noteq> 45
     \<and> length (sanitize_filename (lit ''A/B:C *'')) \<le> 100
     \<and> hd (sanitize_filename (lit ''A/B:C *'')) = hd (lstrip (lit ''A/B:C *''))"
    unfolding e by (simp add: str_defs)
  ultimately show ?thesis using e by blast
qed

text \<open>
  Claim C2 as stated fails: \<open>sanitize_filename("_a")\<close> is \<open>"_a"\<close>, which starts with an
  underscore.
\<close>

theorem sanitize_filename_leading_counterexample:
  "sanitize_filename (lit ''_a'') = lit ''_a'' \<and> \<not> spec_sanitized (sanitize_filename (lit ''_a''))"
  by (simp add: sanitize_filename_def spec_sanitized_def str_defs)

text \<open>
  A result that is not empty is a fixed point of the sanitizer: idempotence can only
  fail where the result is the empty string.
\<close>

lemma sanitize_filename_idem_nonempty:
  assumes "sanitize_filename x \<noteq> []"
  shows "sanitize_filename (sanitize_filename x) = sanitize_filename x"
proof -
  define r where "r = sanitize_filename x"
  have c: "\<forall>c \<in> set r. c \<notin> set invalid_chars \<and> \<not> is_space c"
    and l: "r = [] \<or> last r \<notin> {95, 45}" and n: "length r \<le> 100"
    unfolding r_def using sanitize_filename_props[of x] by blast+
  have ne: "(r = []) = False" using assms by (simp add: r_def)
  have f1: "foldl (\<lambda>f ch. replace_char ch 95 f) r invalid_chars = r"
    unfolding replace_invalid_map using c by (intro map_idI) simp
  have f2: "join (lit '' '') (py_split r) = r"
    using c ne by (simp add: py_split_def split_ws_no_space)
  have f3: "strip r = r" using c by (simp add: strip_no_space)
  have "is_space 10" "is_space 9" "is_space 32" by (simp_all add: is_space_def)
  then have "10 \<notin> set r" "9 \<notin> set r" "32 \<notin> set r" using c by blast+
  then have f4: "replace_char 10 32 r = r" and f5: "replace_char 9 32 r = r"
    and f6: "replace_char 32 45 r = r"
    by (simp_all add: replace_char_absent)
  have f7: "rstrip_chars (lit ''_-'') r = r"
    using l by (intro rstrip_chars_id) simp
  have nn: "(100 < length r) = False" using n by simp
  have "sanitize_filename r = r"
    by (simp only: sanitize_filename_def[of r] Let_def ne if_False f1 f2 f3 f4 f5 f6 f7 nn)
  then show ?thesis by (simp only: r_def)
qed

text \<open>
  Claim C3 (idempotence) at the input \<open>"_"\<close>: the first pass returns the empty string,
  since the guard for an empty name is applied before the cleaning and not after it; the
  second pass turns the empty string into \<open>"unnamed"\<close>.
\<close>

theorem sanitize_filename_not_idempotent:
  "sanitize_filename (lit ''_'') = []
   \<and> sanitize_filename (sanitize_filename (lit ''_'')) = lit ''unnamed''
   \<and> sanitize_filename (sanitize_filename (lit ''_'')) \<noteq> sanitize_filename (lit ''_'')"
  by (simp add: sanitize_filename_def str_defs)

section \<open>Properties of the Content Transformer\<close>

lemma no_double_blank_Cons:
  "no_double_blank (a # ls) = (ls = [] \<or> (\<not> (strip a = [] \<and> strip (hd ls) = []) \<and> no_double_blank ls))"
  by (cases ls) auto

lemma collapse_blank_inv:
  "no_double_blank (collapse_blank p ls)
   \<and> (p \<longrightarrow> collapse_blank p ls = [] \<or> strip (hd (collapse_blank p ls)) \<noteq> [])"
proof (induction ls arbitrary: p)
  case Nil
  then show ?case by simp
next
  case (Cons l ls)
  show ?case
  proof (cases "strip l = []")
    case True
    then show ?thesis
      using Cons.IH[of True] by (cases p) (auto simp: no_double_blank_Cons)
  next
    case False
    then show ?thesis
      using Cons.IH[of False] by (auto simp: no_double_blank_Cons)
  qed
qed

lemma collapse_blank_filter:
  "filter (\<lambda>l. strip l \<noteq> []) (collapse_blank p ls) = filter (\<lambda>l. strip l \<noteq> []) ls"
  by (induction ls arbitrary: p) auto

lemma collapse_blank_zip:
  "collapse_blank p ls =
     map snd (filter (\<lambda>x. \<not> (strip (snd x) = [] \<and> fst x)) (zip (p # map (\<lambda>l. strip l = []) ls) ls))"
  by (induction ls arbitrary: p) auto


lemma drop_title_lines_no_title:
  "map_of md (lit ''title'') = None \<Longrightarrow>
     drop_title_lines md ls = (if list_all (\<lambda>l. strip l = []) ls then Inr [] else Inl (KeyError (lit ''title'')))"
  by (induction ls) auto

lemma split_nl_nonempty: "split_nl s \<noteq> []"
  by (induction s) (auto split: list.splits)

lemma lstrip_empty_iff: "lstrip s = [] \<longleftrightarrow> (\<forall>c \<in> set s. is_space c)"
  by (simp add: lstrip_def dropWhile_eq_Nil_conv)

lemma rstrip_empty_iff: "rstrip s = [] \<longleftrightarrow> (\<forall>c \<in> set s. is_space c)"
  by (simp add: rstrip_def dropWhile_eq_Nil_conv)

lemma lstrip_hd: "lstrip s \<noteq> [] \<Longrightarrow> \<not> is_space (hd (lstrip s))"
  unfolding lstrip_def using hd_dropWhile[of is_space s] by simp

lemma strip_empty_iff: "strip s = [] \<longleftrightarrow> (\<forall>c \<in> set s. is_space c)"
proof
  assume "strip s = []"
  then have a: "\<forall>c \<in> set (lstrip s). is_space c"
    by (simp add: strip_def rstrip_empty_iff)
  have "lstrip s = []"
  proof (rule ccontr)
    assume n: "lstrip s \<noteq> []"
    then have "hd (lstrip s) \<in> set (lstrip s)" by simp
    with a lstrip_hd[OF n] show False by blast
  qed
  then show "\<forall>c \<in> set s. is_space c" by (simp add: lstrip_empty_iff)
next
  assume "\<forall>c \<in> set s. is_space c"
  then have "lstrip s = []" by (simp add: lstrip_empty_iff)
  then show "strip s = []" by (simp add: strip_def rstrip_def)
qed

lemma strip_rev_empty: "strip (rev l) = [] \<longleftrightarrow> strip l = []"
  by (simp add: strip_empty_iff)

lemma strip_lstrip_empty: "strip (lstrip l) = [] \<longleftrightarrow> strip l = []"
proof -
  have "lstrip (lstrip l) = lstrip l"
    by (cases "lstrip l") (use lstrip_hd[of l] in \<open>auto simp: lstrip_def\<close>)
  then have "strip (lstrip l) = strip l" by (simp add: strip_def)
  then show ?thesis by simp
qed

lemma split_nl_lstrip:
  "split_nl (lstrip s) =
     (case dropWhile (\<lambda>l. strip l = []) (split_nl s) of [] \<Rightarrow> [[]] | l # rest \<Rightarrow> lstrip l # rest)"
proof (induction s)
  case Nil
  then show ?case by (simp add: lstrip_def strip_empty_iff)
next
  case (Cons c cs)
  obtain l ls where L: "split_nl cs = l # ls"
    using split_nl_nonempty[of cs] by (cases "split_nl cs") auto
  show ?case
  proof (cases "c = 10")
    case True
    then have sp: "is_space c" by (simp add: is_space_def)
    then have "lstrip (c # cs) = lstrip cs" by (simp add: lstrip_def)
    then show ?thesis using Cons.IH True by (simp add: strip_empty_iff)
  next
    case False
    show ?thesis
    proof (cases "is_space c")
      case True
      then have e: "lstrip (c # cs) = lstrip cs" "lstrip (c # l) = lstrip l"
        by (simp_all add: lstrip_def)
      have b: "(strip (c # l) = []) = (strip l = [])"
        using True by (simp add: strip_empty_iff)
      show ?thesis using Cons.IH False L e b by simp
    next
      case nsp: False
      then have e: "lstrip (c # cs) = c # cs" "lstrip (c # l) = c # l"
        by (simp_all add: lstrip_def)
      have b: "strip (c # l) \<noteq> []"
        using nsp by (auto simp: strip_empty_iff)
      show ?thesis using False L e b by simp
    qed
  qed
qed

lemma split_nl_snoc:
  "split_nl (s @ [c]) =
     (if c = 10 then split_nl s @ [[]] else butlast (split_nl s) @ [last (split_nl s) @ [c]])"
proof (induction s)
  case Nil
  then show ?case by simp
next
  case (Cons a s)
  obtain l ls where L: "split_nl s = l # ls"
    using split_nl_nonempty[of s] by (cases "split_nl s") auto
  obtain l2 ls2 where L2: "split_nl (s @ [c]) = l2 # ls2"
    using split_nl_nonempty[of "s @ [c]"] by (cases "split_nl (s @ [c])") auto
  show ?case using Cons.IH L L2 by (auto split: if_splits)
qed

lemma split_nl_rev: "split_nl (rev s) = rev (map rev (split_nl s))"
proof (induction s)
  case Nil
  then show ?case by simp
next
  case (Cons a s)
  obtain l ls where L: "split_nl s = l # ls"
    using split_nl_nonempty[of s] by (cases "split_nl s") auto
  show ?case using Cons.IH L by (simp add: split_nl_snoc)
qed

lemma no_double_blank_snoc:
  "no_double_blank (ls @ [a]) =
     (ls = [] \<or> (\<not> (strip (last ls) = [] \<and> strip a = []) \<and> no_double_blank ls))"
proof (induction ls rule: no_double_blank.induct)
  case 1
  then show ?case by simp
next
  case (2 x)
  then show ?case by simp
next
  case (3 x y ls)
  then show ?case by auto
qed

lemma no_double_blank_rev: "no_double_blank (rev ls) = no_double_blank ls"
proof (induction ls rule: no_double_blank.induct)
  case 1
  then show ?case by simp
next
  case (2 x)
  then show ?case by simp
next
  case (3 x y ls)
  have "no_double_blank (rev (x # y # ls)) = no_double_blank ((rev ls @ [y]) @ [x])" by simp
  also have "\<dots> = (\<not> (strip y = [] \<and> strip x = []) \<and> no_double_blank (rev ls @ [y]))"
    by (subst no_double_blank_snoc) simp
  also have "\<dots> = (\<not> (strip x = [] \<and> strip y = []) \<and> no_double_blank (y # ls))"
    using 3 by auto
  finally show ?case by simp
qed

lemma no_double_blank_map_rev: "no_double_blank (map rev ls) = no_double_blank ls"
  by (induction ls rule: no_double_blank.induct) (simp_all add: strip_rev_empty)

lemma no_double_blank_dropWhile: "no_double_blank ls \<Longrightarrow> no_double_blank (dropWhile P ls)"
  by (induction ls rule: no_double_blank.induct) auto

lemma no_double_blank_lstrip:
  assumes "no_double_blank (split_nl s)"
  shows "no_double_blank (split_nl (lstrip s))"
proof (cases "dropWhile (\<lambda>l. strip l = []) (split_nl s)")
  case Nil
  show ?thesis unfolding split_nl_lstrip Nil by simp
next
  case (Cons l rest)
  have "no_double_blank (l # rest)"
    using no_double_blank_dropWhile[OF assms, of "\<lambda>l. strip l = []"] Cons by simp
  then have "no_double_blank (lstrip l # rest)"
    by (simp add: no_double_blank_Cons strip_lstrip_empty)
  then show ?thesis using Cons by (simp add: split_nl_lstrip)
qed

lemma rstrip_rev: "rstrip s = rev (lstrip (rev s))"
  by (simp add: rstrip_def lstrip_def)

lemma no_double_blank_rstrip:
  assumes "no_double_blank (split_nl s)"
  shows "no_double_blank (split_nl (rstrip s))"
proof -
  have "no_double_blank (split_nl (rev s))"
    using assms by (simp add: split_nl_rev no_double_blank_rev no_double_blank_map_rev)
  then have "no_double_blank (split_nl (lstrip (rev s)))"
    by (rule no_double_blank_lstrip)
  then show ?thesis
    by (simp add: rstrip_rev split_nl_rev no_double_blank_rev no_double_blank_map_rev)
qed

lemma no_double_blank_strip:
  "no_double_blank (split_nl s) \<Longrightarrow> no_double_blank (split_nl (strip s))"
  unfolding strip_def by (intro no_double_blank_rstrip no_double_blank_lstrip)

lemma split_nl_line: "10 \<notin> set l \<Longrightarrow> split_nl (l @ 10 # s) = l # split_nl s"
  by (induction l) auto

lemma split_nl_single: "10 \<notin> set l \<Longrightarrow> split_nl l = [l]"
  by (induction l) auto

lemma split_nl_join:
  "ls \<noteq> [] \<Longrightarrow> \<forall>l \<in> set ls. 10 \<notin> set l \<Longrightarrow> split_nl (join [10] ls) = ls"
proof (induction "[10::nat]" ls rule: join.induct)
  case 1
  then show ?case by simp
next
  case (2 x)
  then show ?case by (simp add: split_nl_single)
next
  case (3 x y ys)
  then show ?case by (simp add: split_nl_line)
qed

lemma split_nl_no_nl: "l \<in> set (split_nl s) \<Longrightarrow> 10 \<notin> set l"
proof (induction s arbitrary: l)
  case Nil
  then show ?case by simp
next
  case (Cons c cs)
  obtain l0 ls where L: "split_nl cs = l0 # ls"
    using split_nl_nonempty[of cs] by (cases "split_nl cs") auto
  show ?case
  proof (cases "c = 10")
    case True
    then show ?thesis using Cons by auto
  next
    case False
    then have "l = c # l0 \<or> l \<in> set ls" using Cons.prems L by auto
    then show ?thesis using Cons.IH L False by auto
  qed
qed

lemma collapse_blank_subset: "set (collapse_blank p ls) \<subseteq> set ls"
  by (induction ls arbitrary: p) auto

lemma body_no_double_blank:
  assumes "\<forall>l \<in> set ls. 10 \<notin> set l"
  shows "no_double_blank (split_nl (strip (join [10] (collapse_blank False ls))))"
proof (cases "collapse_blank False ls = []")
  case True
  then show ?thesis by (simp add: strip_def lstrip_def rstrip_def)
next
  case False
  have "\<forall>l \<in> set (collapse_blank False ls). 10 \<notin> set l"
    using assms collapse_blank_subset[of False ls] by blast
  then have "split_nl (join [10] (collapse_blank False ls)) = collapse_blank False ls"
    using False by (simp add: split_nl_join)
  then have "no_double_blank (split_nl (join [10] (collapse_blank False ls)))"
    using collapse_blank_inv[of False ls] by simp
  then show ?thesis by (rule no_double_blank_strip)
qed

lemma drop_title_lines_subset:
  "drop_title_lines md ls = Inr r \<Longrightarrow> set r \<subseteq> set ls"
proof (induction ls)
  case Nil
  then show ?case by simp
next
  case (Cons l ls)
  then show ?case by (auto split: if_splits option.splits)
qed

lemma transformed_body_props:
  assumes "drop_title_lines md (split_nl markdown_content) = Inr content_lines"
  shows "no_double_blank (collapse_blank False content_lines)
     \<and> collapse_blank False content_lines =
         map snd (filter (\<lambda>x. \<not> (strip (snd x) = [] \<and> fst x))
                    (zip (False # map (\<lambda>l. strip l = []) content_lines) content_lines))
     \<and> filter (\<lambda>l. strip l \<noteq> []) (collapse_blank False content_lines)
         = filter (\<lambda>l. strip l \<noteq> []) content_lines
     \<and> no_double_blank (split_nl (strip (join [10] (collapse_blank False content_lines))))"
proof -
  have "\<forall>l \<in> set content_lines. 10 \<notin> set l"
    using drop_title_lines_subset[OF assms] split_nl_no_nl by blast
  then have "no_double_blank (split_nl (strip (join [10] (collapse_blank False content_lines))))"
    by (rule body_no_double_blank)
  moreover have "no_double_blank (collapse_blank False content_lines)"
    using collapse_blank_inv[of False content_lines] by simp
  ultimately show ?thesis
    using collapse_blank_zip[of False content_lines] collapse_blank_filter[of False content_lines]
    by simp
qed

section \<open>Properties of the Metadata Composer\<close>




lemma map_of_clean_metadata:
  "distinct (map fst md) \<Longrightarrow>
     map_of (clean_metadata e md) k =
       (case map_of md k of None \<Rightarrow> None
        | Some v \<Rightarrow> if truthy v then Some (strip (py_str e v)) else None)"
proof (induction md)
  case Nil
  then show ?case by (simp add: clean_metadata_def)
next
  case (Cons p md)
  then have ih: "map_of (clean_metadata e md) k =
       (case map_of md k of None \<Rightarrow> None
        | Some v \<Rightarrow> if truthy v then Some (strip (py_str e v)) else None)"
    by simp
  have nk: "fst p = k \<Longrightarrow> map_of md k = None"
    using Cons.prems by (auto simp: map_of_eq_None_iff)
  show ?case
    using ih nk by (cases p) (auto simp: clean_metadata_def split: option.splits)
qed

lemma metadata_source_keys:
  "map fst (metadata_source kv title a) =
     [lit ''title'', lit ''author'', lit ''author_sys_id'', lit ''created_date'', lit ''updated_date'',
      lit ''views'', lit ''rating'', lit ''knowledge_base'', lit ''category'', lit ''sys_id'']"
  by (simp add: metadata_source_def)

lemma metadata_source_distinct: "distinct (map fst (metadata_source kv title a))"
  unfolding metadata_source_keys by simp

lemma metadata_title:
  "map_of (clean_metadata e (metadata_source kv title a)) (lit ''title'')
     = (if title = [] then None else Some (strip title))"
  by (simp add: map_of_clean_metadata[OF metadata_source_distinct]) (simp add: metadata_source_def)

lemmas io_defs = io_bind_def io_return_def io_lift_def io_print_def

lemma format_article_markdown_unfold:
  "format_article_markdown e (JObj kv) markdown_content file_path log =
     (case py_strip (if truthy (dict_get kv (lit ''short_description'') JNull)
                       then dict_get kv (lit ''short_description'') JNull
                     else dict_get kv (lit ''title'') (JStr [])) of
        Inl ex \<Rightarrow> (log, Inl ex)
      | Inr t1 \<Rightarrow>
          (case py_get (dict_get kv (lit ''author'') (JObj [])) (lit ''value'') (JStr []) of
             Inl ex \<Rightarrow> (log, Inl ex)
           | Inr author_sys_id \<Rightarrow>
               (case get_user_details e author_sys_id log of
                  (log', Inl ex) \<Rightarrow> (log', Inl ex)
                | (log', Inr author_details) \<Rightarrow>
                    (log', compose_document e kv (join (lit '' '') (py_split t1)) author_details
                             markdown_content))))"
  by (simp add: format_article_markdown_def Let_def io_defs split: sum.splits prod.splits)

lemma compose_document_no_title:
  "compose_document e kv [] a markdown_content = Inl (KeyError (lit ''title''))"
proof -
  have n: "map_of (clean_metadata e (metadata_source kv [] a)) (lit ''title'') = None"
    using metadata_title[of e kv "[]" a] by simp
  show ?thesis
    unfolding compose_document_def Let_def
    by (simp only: n drop_title_lines_no_title[OF n] option.case) (simp split: sum.splits)
qed





section \<open>Evaluation of the concrete runs\<close>

lemmas json_defs = dict_get_def attribute_error_def sanitize_filename_json_def path_join_def
  str_int_def

lemmas env_defs = demo_env_def offline_def kb_bases_endpoint_def kb_categories_endpoint_def
  articles_endpoint_def users_endpoint_def

lemmas run_defs = main_def main_body_def export_all_def export_knowledge_base_def
  process_knowledge_base_def process_article_def export_article_def print_article_content_def
  format_article_markdown_unfold get_user_details_def fetch_user_def make_request_def
  create_folder_def write_file_def convert_html_to_markdown_def demo_remote_def demo_kbs_def
  compose_document_def metadata_source_def clean_metadata_def frontmatter_lines_def
  io_defs json_defs env_defs str_defs sanitize_filename_def Let_def

section \<open>The body of the document\<close>

lemma compose_document_body:
  assumes "drop_title_lines (clean_metadata e (metadata_source kv title a)) (split_nl markdown_content)
             = Inr content_lines"
    and "title \<noteq> []"
  shows "compose_document e kv title a markdown_content
           = Inr (join [10] [join [10] (frontmatter_lines (clean_metadata e (metadata_source kv title a))),
                             [], lit ''# '' @ strip title, [],
                             strip (join [10] (collapse_blank False content_lines))])"
proof -
  have t: "map_of (clean_metadata e (metadata_source kv title a)) (lit ''title'') = Some (strip title)"
    using metadata_title[of e kv title a] assms(2) by simp
  show ?thesis
    unfolding compose_document_def Let_def assms(1) t by simp
qed

text \<open>
  Claim C7: the lines that are left after the title loop go through the loop that builds
  \<open>cleaned_content\<close>. Its result has no two consecutive blank lines; it is the input
  without exactly the blank lines that come right after a blank line, so every line
  that is not blank passes through unchanged and in order; the body of the document,
  \<open>'\n'.join(cleaned_content).strip()\<close>, read line by line, has no two consecutive
  blank lines either; and this body is the last part of the document that
  \<open>format_article_markdown\<close> composes, after the frontmatter and the heading.
\<close>

theorem collapse_blank_lines:
  assumes "drop_title_lines md (split_nl markdown_content) = Inr content_lines"
  shows "no_double_blank (collapse_blank False content_lines)
     \<and> collapse_blank False content_lines =
         map snd (filter (\<lambda>x. \<not> (strip (snd x) = [] \<and> fst x))
                    (zip (False # map (\<lambda>l. strip l = []) content_lines) content_lines))
     \<and> filter (\<lambda>l. strip l \<noteq> []) (collapse_blank False content_lines)
         = filter (\<lambda>l. strip l \<noteq> []) content_lines
     \<and> no_double_blank (split_nl (strip (join [10] (collapse_blank False content_lines))))
     \<and> (md = clean_metadata e (metadata_source kv title a) \<and> title \<noteq> [] \<longrightarrow>
          compose_document e kv title a markdown_content
            = Inr (join [10] [join [10] (frontmatter_lines md), [], lit ''# '' @ strip title, [],
                              strip (join [10] (collapse_blank False content_lines))]))"
proof -
  note p = transformed_body_props[OF assms]
  have d: "md = clean_metadata e (metadata_source kv title a) \<and> title \<noteq> [] \<longrightarrow>
          compose_document e kv title a markdown_content
            = Inr (join [10] [join [10] (frontmatter_lines md), [], lit ''# '' @ strip title, [],
                              strip (join [10] (collapse_blank False content_lines))])"
  proof
    assume h: "md = clean_metadata e (metadata_source kv title a) \<and> title \<noteq> []"
    then have m: "md = clean_metadata e (metadata_source kv title a)" and n: "title \<noteq> []"
      by (rule conjunct1, rule conjunct2)
    from compose_document_body[OF assms[unfolded m] n]
    show "compose_document e kv title a markdown_content
            = Inr (join [10] [join [10] (frontmatter_lines md), [], lit ''# '' @ strip title, [],
                              strip (join [10] (collapse_blank False content_lines))])"
      unfolding m .
  qed
  from p have p1: "no_double_blank (collapse_blank False content_lines)" by (rule conjunct1)
  from p have p2: "collapse_blank False content_lines =
         map snd (filter (\<lambda>x. \<not> (strip (snd x) = [] \<and> fst x))
                    (zip (False # map (\<lambda>l. strip l = []) content_lines) content_lines))"
    by (rule conjunct2[THEN conjunct1])
  from p have p3: "filter (\<lambda>l. strip l \<noteq> []) (collapse_blank False content_lines)
         = filter (\<lambda>l. strip l \<noteq> []) content_lines"
    by (rule conjunct2[THEN conjunct2, THEN conjunct1])
  from p have p4: "no_double_blank (split_nl (strip (join [10] (collapse_blank False content_lines))))"
    by (rule conjunct2[THEN conjunct2, THEN conjunct2])
  show ?thesis by (intro conjI) (rule p1, rule p2, rule p3, rule p4, rule d)
qed

text \<open>
  A body with the heading of the title, and with two blank lines, the second made of a
  space, between its two paragraphs.
\<close>

theorem collapse_blank_lines_witness:
  "drop_title_lines
      (clean_metadata (demo_env offline)
         (metadata_source [(lit ''short_description'', JStr (lit ''T''))] (lit ''T'')
            \<lparr>name = lit ''Unknown'', sys_id = JStr []\<rparr>))
      (split_nl (lit ''# T'' @ [10, 10] @ lit ''a'' @ [10, 10, 32, 10] @ lit ''b''))
     = Inr [lit ''a'', [], [32], lit ''b'']
   \<and> collapse_blank False [lit ''a'', [], [32], lit ''b''] = [lit ''a'', [], lit ''b'']
   \<and> no_double_blank (split_nl (strip (join [10] (collapse_blank False [lit ''a'', [], [32], lit ''b'']))))
   \<and> compose_document (demo_env offline) [(lit ''short_description'', JStr (lit ''T''))] (lit ''T'')
         \<lparr>name = lit ''Unknown'', sys_id = JStr []\<rparr>
         (lit ''# T'' @ [10, 10] @ lit ''a'' @ [10, 10, 32, 10] @ lit ''b'')
       = Inr (lit ''---'' @ [10] @ lit ''title: '' @ [34] @ lit ''T'' @ [34, 10]
              @ lit ''author: '' @ [34] @ lit ''Unknown'' @ [34, 10] @ lit ''---'' @ [10, 10]
              @ lit ''# T'' @ [10, 10] @ lit ''a'' @ [10, 10] @ lit ''b'')"
proof -
  let ?kv = "[(lit ''short_description'', JStr (lit ''T''))]"
  let ?a = "\<lparr>name = lit ''Unknown'', sys_id = JStr []\<rparr>"
  let ?mc = "lit ''# T'' @ [10, 10] @ lit ''a'' @ [10, 10, 32, 10] @ lit ''b''"
  let ?md = "clean_metadata (demo_env offline) (metadata_source ?kv (lit ''T'') ?a)"
  have m: "?md = [(lit ''title'', lit ''T''), (lit ''author'', lit ''Unknown'')]"
    by (simp add: metadata_source_def clean_metadata_def json_defs str_defs)
  have h: "drop_title_lines ?md (split_nl ?mc) = Inr [lit ''a'', [], [32], lit ''b'']"
    unfolding m by (simp add: str_defs)
  have c: "collapse_blank False [lit ''a'', [], [32], lit ''b''] = [lit ''a'', [], lit ''b'']"
    by (simp add: str_defs)
  note t = collapse_blank_lines[OF h, of "demo_env offline" ?kv "lit ''T''" ?a]
  from t have n: "no_double_blank (split_nl (strip (join [10] (collapse_blank False [lit ''a'', [], [32], lit ''b'']))))"
    by (rule conjunct2[THEN conjunct2, THEN conjunct2, THEN conjunct1])
  have ne: "lit ''T'' \<noteq> []" by simp
  from t have "?md = ?md \<and> lit ''T'' \<noteq> [] \<longrightarrow>
      compose_document (demo_env offline) ?kv (lit ''T'') ?a ?mc
        = Inr (join [10] [join [10] (frontmatter_lines ?md), [], lit ''# '' @ strip (lit ''T''), [],
                 strip (join [10] (collapse_blank False [lit ''a'', [], [32], lit ''b'']))])"
    by (rule conjunct2[THEN conjunct2, THEN conjunct2, THEN conjunct2])
  then have "compose_document (demo_env offline) ?kv (lit ''T'') ?a ?mc
        = Inr (join [10] [join [10] (frontmatter_lines ?md), [], lit ''# '' @ strip (lit ''T''), [],
                 strip (join [10] (collapse_blank False [lit ''a'', [], [32], lit ''b'']))])"
    using ne by blast
  then have d: "compose_document (demo_env offline) ?kv (lit ''T'') ?a ?mc
       = Inr (lit ''---'' @ [10] @ lit ''title: '' @ [34] @ lit ''T'' @ [34, 10]
              @ lit ''author: '' @ [34] @ lit ''Unknown'' @ [34, 10] @ lit ''---'' @ [10, 10]
              @ lit ''# T'' @ [10, 10] @ lit ''a'' @ [10, 10] @ lit ''b'')"
    unfolding m c by (simp add: frontmatter_lines_def str_defs)
  show ?thesis by (intro conjI) (rule h, rule c, rule n, rule d)
qed

section \<open>The title loop\<close>





section \<open>An article without title\<close>

text \<open>
  Claim C4 fails in the code: an empty title is removed from \<open>metadata\<close> as every other
  false value, and \<open>metadata['title']\<close> raises \<open>KeyError\<close>; the placeholder
  \<open>Unnamed Article {sys_id}\<close> exists only in \<open>main\<close>, for the name of the file. For every
  record, author and content the composition with the empty title fails, and so does
  \<open>format_article_markdown\<close> on a record that has only a \<open>sys_id\<close>.
\<close>

theorem format_article_markdown_untitled:
  "compose_document e kv [] a markdown_content = Inl (KeyError (lit ''title''))
   \<and> format_article_markdown (demo_env offline) (JObj [(lit ''sys_id'', JStr (lit ''a1''))])
        (lit ''Text'') (lit ''/srv/articles/HR/Unnamed-Article-a1.md'') []
      = ([], Inl (KeyError (lit ''title'')))"
proof -
  have "format_article_markdown (demo_env offline) (JObj [(lit ''sys_id'', JStr (lit ''a1''))])
        (lit ''Text'') (lit ''/srv/articles/HR/Unnamed-Article-a1.md'') []
      = ([], Inl (KeyError (lit ''title'')))"
    by (simp add: format_article_markdown_unfold get_user_details_def json_defs str_defs
          compose_document_no_title)
  then show ?thesis using compose_document_no_title[of e kv a markdown_content] by simp
qed

section \<open>The fields of the frontmatter\<close>

lemma clean_metadata_Cons:
  "clean_metadata e (p # md) =
     (if truthy (snd p) then [(fst p, strip (py_str e (snd p)))] else []) @ clean_metadata e md"
  by (simp add: clean_metadata_def)

lemma clean_metadata_keys:
  "distinct (map fst md) \<Longrightarrow>
     map fst (clean_metadata e md)
       = filter (\<lambda>k. map_of (clean_metadata e md) k \<noteq> None) (map fst md)"
proof (induction md)
  case Nil
  then show ?case by (simp add: clean_metadata_def)
next
  case (Cons p md)
  from Cons.prems have d: "distinct (map fst md)" and np: "fst p \<notin> fst ` set md" by simp_all
  have ih: "map fst (clean_metadata e md)
       = filter (\<lambda>k. map_of (clean_metadata e md) k \<noteq> None) (map fst md)"
    using Cons.IH[OF d] .
  have "map_of md (fst p) = None" using np by (simp add: map_of_eq_None_iff)
  then have none: "map_of (clean_metadata e md) (fst p) = None"
    unfolding map_of_clean_metadata[OF d] by simp
  show ?case
  proof (cases "truthy (snd p)")
    case True
    then have c: "clean_metadata e (p # md) = (fst p, strip (py_str e (snd p))) # clean_metadata e md"
      unfolding clean_metadata_Cons by simp
    have tail: "filter (\<lambda>k. map_of (clean_metadata e (p # md)) k \<noteq> None) (map fst md)
                = filter (\<lambda>k. map_of (clean_metadata e md) k \<noteq> None) (map fst md)"
    proof (rule filter_cong[OF refl])
      fix k assume "k \<in> set (map fst md)"
      then obtain q where "q \<in> set md" "k = fst q" by auto
      then have "k \<noteq> fst p" using np by (metis imageI)
      then show "(map_of (clean_metadata e (p # md)) k \<noteq> None)
                   = (map_of (clean_metadata e md) k \<noteq> None)"
        unfolding c by simp
    qed
    have "filter (\<lambda>k. map_of (clean_metadata e (p # md)) k \<noteq> None) (map fst (p # md))
            = fst p # filter (\<lambda>k. map_of (clean_metadata e (p # md)) k \<noteq> None) (map fst md)"
      unfolding c by simp
    also have "\<dots> = fst p # map fst (clean_metadata e md)" unfolding tail ih[symmetric] ..
    also have "\<dots> = map fst (clean_metadata e (p # md))" unfolding c by simp
    finally show ?thesis by (rule sym)
  next
    case False
    then have c: "clean_metadata e (p # md) = clean_metadata e md"
      unfolding clean_metadata_Cons by simp
    have "filter (\<lambda>k. map_of (clean_metadata e (p # md)) k \<noteq> None) (map fst (p # md))
            = filter (\<lambda>k. map_of (clean_metadata e md) k \<noteq> None) (map fst md)"
      unfolding c using none by simp
    then show ?thesis unfolding c ih[symmetric] by (rule sym)
  qed
qed

lemma map_items_keys:
  "distinct (map fst xs) \<Longrightarrow>
     map (\<lambda>p. g (fst p) (snd p)) xs = map (\<lambda>k. g k (the (map_of xs k))) (map fst xs)"
proof (induction xs)
  case Nil
  then show ?case by simp
next
  case (Cons p xs)
  from Cons.prems have d: "distinct (map fst xs)" and np: "fst p \<notin> fst ` set xs" by simp_all
  have "map (\<lambda>k. g k (the (map_of (p # xs) k))) (map fst xs)
          = map (\<lambda>k. g k (the (map_of xs k))) (map fst xs)"
  proof (rule map_cong[OF refl])
    fix k assume "k \<in> set (map fst xs)"
    then obtain q where "q \<in> set xs" "k = fst q" by auto
    then have "k \<noteq> fst p" using np by (metis imageI)
    then show "g k (the (map_of (p # xs) k)) = g k (the (map_of xs k))" by (cases p) simp
  qed
  then show ?case using Cons.IH[OF d] by (cases p) simp
qed

lemma frontmatter_fields_props:
  "map fst (metadata_source kv title a) = field_order
   \<and> map_of (clean_metadata e (metadata_source kv title a)) k =
       (case map_of (metadata_source kv title a) k of None \<Rightarrow> None
        | Some v \<Rightarrow> if truthy v then Some (strip (py_str e v)) else None)
   \<and> map fst (clean_metadata e (metadata_source kv title a))
       = filter (\<lambda>k. map_of (clean_metadata e (metadata_source kv title a)) k \<noteq> None) field_order
   \<and> frontmatter_lines (clean_metadata e (metadata_source kv title a))
       = [lit ''---'']
         @ map (\<lambda>k. k @ lit '': '' @ [34]
                      @ the (map_of (clean_metadata e (metadata_source kv title a)) k) @ [34])
             (filter (\<lambda>k. map_of (clean_metadata e (metadata_source kv title a)) k \<noteq> None)
                field_order)
         @ [lit ''---'']
   \<and> map_of (clean_metadata e (metadata_source kv title a)) (lit ''views'') =
       (if truthy (dict_get kv (lit ''view_count'') (JNum 0))
          then Some (strip (py_str e (dict_get kv (lit ''view_count'') (JNum 0)))) else None)"
proof -
  let ?src = "metadata_source kv title a"
  have k: "map fst ?src = field_order"
    by (simp add: metadata_source_keys field_order_def)
  have d: "distinct (map fst ?src)" by (rule metadata_source_distinct)
  have v: "map_of ?src (lit ''views'') = Some (dict_get kv (lit ''view_count'') (JNum 0))"
    by (simp add: metadata_source_def)
  have vw: "map_of (clean_metadata e ?src) (lit ''views'') =
       (if truthy (dict_get kv (lit ''view_count'') (JNum 0))
          then Some (strip (py_str e (dict_get kv (lit ''view_count'') (JNum 0)))) else None)"
    by (simp only: map_of_clean_metadata[OF d] v option.case)
  have ks: "map fst (clean_metadata e ?src)
       = filter (\<lambda>k. map_of (clean_metadata e ?src) k \<noteq> None) field_order"
    using clean_metadata_keys[OF d, of e] unfolding k .
  have "distinct field_order" using d unfolding k .
  then have "distinct (filter (\<lambda>k. map_of (clean_metadata e ?src) k \<noteq> None) field_order)"
    by (rule distinct_filter)
  then have dk: "distinct (map fst (clean_metadata e ?src))" unfolding ks .
  have fl: "frontmatter_lines (clean_metadata e ?src)
       = [lit ''---'']
         @ map (\<lambda>k. k @ lit '': '' @ [34] @ the (map_of (clean_metadata e ?src) k) @ [34])
             (map fst (clean_metadata e ?src))
         @ [lit ''---'']"
    unfolding frontmatter_lines_def
      map_items_keys[OF dk, of "\<lambda>k v. k @ lit '': '' @ [34] @ v @ [34]"] ..
  have fl': "frontmatter_lines (clean_metadata e ?src)
       = [lit ''---'']
         @ map (\<lambda>k. k @ lit '': '' @ [34] @ the (map_of (clean_metadata e ?src) k) @ [34])
             (filter (\<lambda>k. map_of (clean_metadata e ?src) k \<noteq> None) field_order)
         @ [lit ''---'']"
    using fl unfolding ks .
  show ?thesis
    by (intro conjI) (rule k, rule map_of_clean_metadata[OF d], rule ks, rule fl', rule vw)
qed

text \<open>
  Claim C6, as the code has it: the keys of \<open>metadata\<close> are the ten fields in the order of
  the specification; a field is in the cleaned \<open>metadata\<close> exactly when its source value is
  true in Python's sense, and its value is then \<open>str(v).strip()\<close>; the fields that are kept
  come in the order of the specification; the frontmatter has one line \<open>key: "value"\<close> for
  each of them, in this order, between the two lines \<open>---\<close>; \<open>views\<close> is kept only when
  \<open>view_count\<close>, by default the integer 0, is true.
\<close>

theorem frontmatter_fields:
  "map fst (metadata_source kv title a) = field_order
   \<and> map_of (clean_metadata e (metadata_source kv title a)) k =
       (case map_of (metadata_source kv title a) k of None \<Rightarrow> None
        | Some v \<Rightarrow> if truthy v then Some (strip (py_str e v)) else None)
   \<and> map fst (clean_metadata e (metadata_source kv title a))
       = filter (\<lambda>k. map_of (clean_metadata e (metadata_source kv title a)) k \<noteq> None) field_order
   \<and> frontmatter_lines (clean_metadata e (metadata_source kv title a))
       = [lit ''---'']
         @ map (\<lambda>k. k @ lit '': '' @ [34]
                      @ the (map_of (clean_metadata e (metadata_source kv title a)) k) @ [34])
             (filter (\<lambda>k. map_of (clean_metadata e (metadata_source kv title a)) k \<noteq> None)
                field_order)
         @ [lit ''---'']
   \<and> map_of (clean_metadata e (metadata_source kv title a)) (lit ''views'') =
       (if truthy (dict_get kv (lit ''view_count'') (JNum 0))
          then Some (strip (py_str e (dict_get kv (lit ''view_count'') (JNum 0)))) else None)"
  by (rule frontmatter_fields_props)

text \<open>
  A count of views that is the string \<open>" 0 "\<close> is kept, trimmed.
\<close>

theorem frontmatter_fields_witness:
  "map_of (clean_metadata (demo_env offline)
             (metadata_source [(lit ''view_count'', JStr (lit '' 0 ''))] (lit ''T'')
                \<lparr>name = lit ''Unknown'', sys_id = JStr []\<rparr>)) (lit ''views'') = Some (lit ''0'')"
  using frontmatter_fields[of "[(lit ''view_count'', JStr (lit '' 0 ''))]" "lit ''T''"
          "\<lparr>name = lit ''Unknown'', sys_id = JStr []\<rparr>" "demo_env offline" "[]",
          THEN conjunct2, THEN conjunct2, THEN conjunct2, THEN conjunct2]
  by (simp add: json_defs str_defs)

text \<open>
  Claim C6 as stated fails for \<open>views\<close>: without \<open>view_count\<close> the value is the default 0,
  which is false, and the frontmatter has no field \<open>views\<close>; the same for a count that is
  the integer 0.
\<close>

theorem views_default_counterexample:
  "dict_get [(lit ''sys_id'', JStr (lit ''a1''))] (lit ''view_count'') (JNum 0) = JNum 0
   \<and> clean_metadata (demo_env offline)
        (metadata_source [(lit ''sys_id'', JStr (lit ''a1''))] (lit ''T'')
           \<lparr>name = lit ''Unknown'', sys_id = JStr []\<rparr>)
      = [(lit ''title'', lit ''T''), (lit ''author'', lit ''Unknown''), (lit ''sys_id'', lit ''a1'')]
   \<and> map_of (clean_metadata (demo_env offline)
        (metadata_source [(lit ''view_count'', JNum 0)] (lit ''T'')
           \<lparr>name = lit ''Unknown'', sys_id = JStr []\<rparr>)) (lit ''views'') = None"
  by (simp add: metadata_source_def clean_metadata_def json_defs str_defs)

section \<open>The lookup of the author and the empty list of knowledge bases\<close>

lemma make_request_failure:
  assumes "\<forall>j. http e log req \<noteq> Response j"
  shows "snd (make_request e req log) = Inl (SystemExit 1)"
  using assms by (cases "http e log req") (simp_all add: make_request_def Let_def)

lemma get_user_details_failure:
  assumes "truthy user_sys_id"
    and "\<forall>j. http e log (GET (users_endpoint e @ lit ''/'' @ py_str e user_sys_id) []) \<noteq> Response j"
  shows "snd (get_user_details e user_sys_id log) = Inl (SystemExit 1)"
proof -
  obtain log' where m: "make_request e (GET (users_endpoint e @ lit ''/'' @ py_str e user_sys_id) []) log
                      = (log', Inl (SystemExit 1))"
    using make_request_failure[OF assms(2)]
    by (cases "make_request e (GET (users_endpoint e @ lit ''/'' @ py_str e user_sys_id) []) log") auto
  have "fetch_user e user_sys_id log = (log', Inl (SystemExit 1))"
    unfolding fetch_user_def io_bind_def m by simp
  then show ?thesis using assms(1) by (simp add: get_user_details_def)
qed

text \<open>
  Claim C1 fails in the code: when the request for the user record has any outcome other
  than a decoded body, \<open>make_request\<close> calls \<open>sys.exit(1)\<close>; \<open>SystemExit\<close> is not an
  \<open>Exception\<close>, so the handler of \<open>get_user_details\<close> does not apply and the exit leaves
  the function. On the remote whose user lookup is answered by the status 404, the run
  ends at this lookup, with exit status 1 and no file written.
\<close>

theorem get_user_details_exits:
  "(truthy user_sys_id
      \<and> (\<forall>j. http e log (GET (users_endpoint e @ lit ''/'' @ py_str e user_sys_id) []) \<noteq> Response j)
    \<longrightarrow> snd (get_user_details e user_sys_id log) = Inl (SystemExit 1))
   \<and> main (demo_env (demo_remote demo_kbs (JArr []) (HTTPError 404 (lit ''404 Client Error'')))) []
    = ([MakeDirs (lit ''/srv/articles''),
        Print (lit ''Starting knowledge base export...''),
        Print ([10] @ lit ''Fetching knowledge bases and categories...''),
        Request (GET (lit ''https://dev.example.com/api/now/table/kb_knowledge_base'') []),
        Request (GET (lit ''https://dev.example.com/api/now/table/kb_category'') []),
        MakeDirs (lit ''/srv/articles/HR''),
        Print ([10] @ lit ''Processing knowledge base: HR''),
        Print (replicate 26 45),
        Request (GET (lit ''https://dev.example.com/api/now/table/kb_knowledge'')
                   [(lit ''knowledge_base'', JStr (lit ''k1''))]),
        Request (GET (lit ''https://dev.example.com/api/now/table/kb_knowledge/a1'') []),
        Print ([8594] @ lit '' HR/Leave-Policy.mdx''),
        Request (GET (lit ''https://dev.example.com/api/now/table/sys_user/u1'') []),
        Print (lit ''Error: HTTP request failed: 404 Client Error'')],
       Inl (SystemExit 1))
   \<and> exit_status (Inl (SystemExit 1)) = 1"
proof (intro conjI impI)
  assume "truthy user_sys_id
      \<and> (\<forall>j. http e log (GET (users_endpoint e @ lit ''/'' @ py_str e user_sys_id) []) \<noteq> Response j)"
  then show "snd (get_user_details e user_sys_id log) = Inl (SystemExit 1)"
    using get_user_details_failure by blast
next
  show "main (demo_env (demo_remote demo_kbs (JArr []) (HTTPError 404 (lit ''404 Client Error'')))) []
    = ([MakeDirs (lit ''/srv/articles''),
        Print (lit ''Starting knowledge base export...''),
        Print ([10] @ lit ''Fetching knowledge bases and categories...''),
        Request (GET (lit ''https://dev.example.com/api/now/table/kb_knowledge_base'') []),
        Request (GET (lit ''https://dev.example.com/api/now/table/kb_category'') []),
        MakeDirs (lit ''/srv/articles/HR''),
        Print ([10] @ lit ''Processing knowledge base: HR''),
        Print (replicate 26 45),
        Request (GET (lit ''https://dev.example.com/api/now/table/kb_knowledge'')
                   [(lit ''knowledge_base'', JStr (lit ''k1''))]),
        Request (GET (lit ''https://dev.example.com/api/now/table/kb_knowledge/a1'') []),
        Print ([8594] @ lit '' HR/Leave-Policy.mdx''),
        Request (GET (lit ''https://dev.example.com/api/now/table/sys_user/u1'') []),
        Print (lit ''Error: HTTP request failed: 404 Client Error'')],
       Inl (SystemExit 1))"
    by (simp add: run_defs)
next
  show "exit_status (Inl (SystemExit 1)) = 1" by simp
qed

text \<open>
  The lookup of the user \<open>u1\<close> on a remote that cannot be reached.
\<close>

theorem get_user_details_exits_witness:
  "get_user_details (demo_env offline) (JStr (lit ''u1'')) []
     = ([Request (GET (lit ''https://dev.example.com/api/now/table/sys_user/u1'') []),
         Print (lit ''Error: Could not connect to https://dev.example.com. Please check your internet connection and the instance URL.'')],
        Inl (SystemExit 1))
   \<and> snd (get_user_details (demo_env offline) (JStr (lit ''u1'')) []) = Inl (SystemExit 1)"
proof -
  have t: "truthy (JStr (lit ''u1''))" by simp
  have h: "\<forall>j. http (demo_env offline) []
              (GET (users_endpoint (demo_env offline) @ lit ''/'' @ py_str (demo_env offline) (JStr (lit ''u1''))) [])
            \<noteq> Response j"
    by (simp add: env_defs)
  have s: "snd (get_user_details (demo_env offline) (JStr (lit ''u1'')) []) = Inl (SystemExit 1)"
    using get_user_details_exits[of "JStr (lit ''u1'')" "demo_env offline" "[]", THEN conjunct1] t h
    by blast
  have "get_user_details (demo_env offline) (JStr (lit ''u1'')) []
     = ([Request (GET (lit ''https://dev.example.com/api/now/table/sys_user/u1'') []),
         Print (lit ''Error: Could not connect to https://dev.example.com. Please check your internet connection and the instance URL.'')],
        Inl (SystemExit 1))"
    by (simp add: get_user_details_def fetch_user_def make_request_def io_defs env_defs Let_def)
  with s show ?thesis by (rule conjI[rotated])
qed

lemma main_no_knowledge_bases:
  assumes "log1 = log @ (if path_exists e log (output_folder e) then [] else [MakeDirs (output_folder e)])
                    @ [Print (lit ''Starting knowledge base export...''),
                       Print ([10] @ lit ''Fetching knowledge bases and categories...'')]"
    and "http e log1 (GET (kb_bases_endpoint e) []) = Response r"
    and "py_get r (lit ''result'') (JArr []) = Inr knowledge_bases"
    and "\<not> truthy knowledge_bases"
  shows "main e log = (log1 @ [Request (GET (kb_bases_endpoint e) []),
                               Print (lit ''Warning: No knowledge bases found'')], Inr ())
         \<and> exit_status (snd (main e log)) = 0"
proof -
  have c: "create_folder e (output_folder e) log
             = (log @ (if path_exists e log (output_folder e) then [] else [MakeDirs (output_folder e)]), Inr ())"
    by (simp add: create_folder_def)
  have m: "make_request e (GET (kb_bases_endpoint e) []) log1
             = (log1 @ [Request (GET (kb_bases_endpoint e) [])], Inr r)"
    using assms(2) by (simp add: make_request_def Let_def)
  have "main_body e log = (log1 @ [Request (GET (kb_bases_endpoint e) []),
                               Print (lit ''Warning: No knowledge bases found'')], Inr ())"
    unfolding main_body_def io_bind_def c
    using assms(1) m assms(3,4) by (simp add: io_print_def io_lift_def)
  then show ?thesis by (simp add: main_def)
qed

text \<open>
  Claim C5, as the code has it: when the list of knowledge bases is false (empty, or no
  \<open>result\<close> in the answer), the run is: the base output folder created if it does not
  exist, the two lines of progress, the request, the warning; then \<open>main\<close> returns, so the
  exit status is 0. No file is written, and no directory is created but the base output
  folder.
\<close>

theorem no_knowledge_bases:
  assumes "log1 = log @ (if path_exists e log (output_folder e) then [] else [MakeDirs (output_folder e)])
                    @ [Print (lit ''Starting knowledge base export...''),
                       Print ([10] @ lit ''Fetching knowledge bases and categories...'')]"
    and "http e log1 (GET (kb_bases_endpoint e) []) = Response r"
    and "py_get r (lit ''result'') (JArr []) = Inr knowledge_bases"
    and "\<not> truthy knowledge_bases"
  shows "main e log = (log1 @ [Request (GET (kb_bases_endpoint e) []),
                               Print (lit ''Warning: No knowledge bases found'')], Inr ())
         \<and> exit_status (snd (main e log)) = 0"
  using assms by (rule main_no_knowledge_bases)

text \<open>
  A run on the remote without knowledge bases, the base output folder being there.
\<close>

theorem no_knowledge_bases_witness:
  "main (demo_env (demo_remote (JArr []) (JArr []) Timeout)) [MakeDirs (lit ''/srv/articles'')]
     = ([MakeDirs (lit ''/srv/articles''),
         Print (lit ''Starting knowledge base export...''),
         Print ([10] @ lit ''Fetching knowledge bases and categories...''),
         Request (GET (lit ''https://dev.example.com/api/now/table/kb_knowledge_base'') []),
         Print (lit ''Warning: No knowledge bases found'')], Inr ())
   \<and> exit_status (snd (main (demo_env (demo_remote (JArr []) (JArr []) Timeout))
                          [MakeDirs (lit ''/srv/articles'')])) = 0"
proof -
  let ?e = "demo_env (demo_remote (JArr []) (JArr []) Timeout)"
  let ?log1 = "[MakeDirs (lit ''/srv/articles''),
         Print (lit ''Starting knowledge base export...''),
         Print ([10] @ lit ''Fetching knowledge bases and categories...'')]"
  have a1: "?log1 = [MakeDirs (lit ''/srv/articles'')]
               @ (if path_exists ?e [MakeDirs (lit ''/srv/articles'')] (output_folder ?e) then []
                  else [MakeDirs (output_folder ?e)])
               @ [Print (lit ''Starting knowledge base export...''),
                  Print ([10] @ lit ''Fetching knowledge bases and categories...'')]"
    by (simp add: demo_env_def)
  have a2: "http ?e ?log1 (GET (kb_bases_endpoint ?e) []) = Response (JObj [(lit ''result'', JArr [])])"
    by (simp add: env_defs demo_remote_def)
  have a3: "py_get (JObj [(lit ''result'', JArr [])]) (lit ''result'') (JArr []) = Inr (JArr [])"
    by (simp add: dict_get_def)
  have a4: "\<not> truthy (JArr [])" by simp
  have k: "kb_bases_endpoint ?e = lit ''https://dev.example.com/api/now/table/kb_knowledge_base''"
    by (simp add: env_defs)
  from no_knowledge_bases[OF a1 a2 a3 a4] show ?thesis unfolding k by simp
qed

text \<open>
  Claim C5 as stated fails where the base output folder does not exist: the run creates
  it before the fetch.
\<close>

theorem base_folder_created_counterexample:
  "main (demo_env (demo_remote (JArr []) (JArr []) Timeout)) []
     = ([MakeDirs (lit ''/srv/articles''),
         Print (lit ''Starting knowledge base export...''),
         Print ([10] @ lit ''Fetching knowledge bases and categories...''),
         Request (GET (lit ''https://dev.example.com/api/now/table/kb_knowledge_base'') []),
         Print (lit ''Warning: No knowledge bases found'')], Inr ())"
  by (simp add: main_def main_body_def create_folder_def make_request_def demo_remote_def
        io_defs env_defs dict_get_def Let_def)

section \<open>Records without sys_id\<close>













end
